theory Spec2Isabelle
  imports Complex_Main "HOL-Library.Sublist" "HOL-Library.AList"
begin

section \<open>Python values\<close>

text \<open>
  The extractors receive what \<^verbatim>\<open>json.loads\<close> produced: \<^verbatim>\<open>None\<close>, booleans, integers,
  strings, lists and dictionaries with string keys. A dictionary is an association list;
  \<^verbatim>\<open>json.loads\<close> keeps one entry per key, and a lookup reads the first entry of a key.
  Strings are lists of 8-bit characters and stand for ASCII text. JSON numbers with a
  fraction or an exponent (Python floats) are not part of the input model.

  An exception raised by the Python code is a value \<open>Inl e\<close>; a normal return is \<open>Inr v\<close>.
\<close>

datatype py_error = TypeError | ValueError | AttributeError

datatype json =
    JNull
  | JBool bool
  | JInt int
  | JStr string
  | JList "json list"
  | JDict "(string \<times> json) list"

text \<open>
  The values stored in a feature dictionary and in a dataset row: integers, floats and
  strings. A float is an IEEE 754 double; the value \<open>VFloat x\<close> holds the rational
  number \<open>x\<close> that the double denotes. A feature dictionary is the list of its items in
  insertion order.
\<close>

datatype pyval = VInt int | VFloat rat | VStr string

type_synonym features = "(string \<times> pyval) list"

definition py_bind :: "py_error + 'a \<Rightarrow> ('a \<Rightarrow> py_error + 'b) \<Rightarrow> py_error + 'b" where
  "py_bind m f = (case m of Inl e \<Rightarrow> Inl e | Inr x \<Rightarrow> f x)"

text \<open>Truth value of a Python object, and the operator \<^verbatim>\<open>a or b\<close>.\<close>

fun py_bool :: "json \<Rightarrow> bool" where
  "py_bool JNull = False"
| "py_bool (JBool b) = b"
| "py_bool (JInt i) = (i \<noteq> 0)"
| "py_bool (JStr s) = (s \<noteq> [])"
| "py_bool (JList xs) = (xs \<noteq> [])"
| "py_bool (JDict kvs) = (kvs \<noteq> [])"

definition py_or :: "json \<Rightarrow> json \<Rightarrow> json" where
  "py_or a b = (if py_bool a then a else b)"

text \<open>\<^verbatim>\<open>d.get(k, default)\<close>: a key that is present with value \<^verbatim>\<open>None\<close> yields \<^verbatim>\<open>None\<close>,
  not the default. On anything but a dictionary the attribute \<^verbatim>\<open>get\<close> is missing.\<close>

definition dict_get :: "(string \<times> json) list \<Rightarrow> string \<Rightarrow> json \<Rightarrow> json" where
  "dict_get d k dflt = (case map_of d k of Some v \<Rightarrow> v | None \<Rightarrow> dflt)"

text \<open>The receiver of a call \<^verbatim>\<open>x.get(...)\<close> must be a dictionary and the receiver of a
  string method such as \<^verbatim>\<open>x.lower()\<close> a string: on any other value the attribute is
  missing.\<close>

definition py_dict :: "json \<Rightarrow> py_error + (string \<times> json) list" where
  "py_dict v = (case v of JDict d \<Rightarrow> Inr d | _ \<Rightarrow> Inl AttributeError)"

definition py_str_receiver :: "json \<Rightarrow> py_error + string" where
  "py_str_receiver v = (case v of JStr s \<Rightarrow> Inr s | _ \<Rightarrow> Inl AttributeError)"

definition py_get :: "json \<Rightarrow> string \<Rightarrow> json \<Rightarrow> py_error + json" where
  "py_get v k dflt = py_bind (py_dict v) (\<lambda>d. Inr (dict_get d k dflt))"

text \<open>\<^verbatim>\<open>len(x)\<close>.\<close>

fun py_len :: "json \<Rightarrow> py_error + nat" where
  "py_len (JStr s) = Inr (length s)"
| "py_len (JList xs) = Inr (length xs)"
| "py_len (JDict kvs) = Inr (length (AList.clearjunk kvs))"
| "py_len JNull = Inl TypeError"
| "py_len (JBool b) = Inl TypeError"
| "py_len (JInt i) = Inl TypeError"

section \<open>Strings\<close>

definition is_digit :: "char \<Rightarrow> bool" where
  "is_digit c = (c \<in> set ''0123456789'')"

definition is_lower :: "char \<Rightarrow> bool" where
  "is_lower c = (c \<in> set ''abcdefghijklmnopqrstuvwxyz'')"

definition is_upper :: "char \<Rightarrow> bool" where
  "is_upper c = (c \<in> set ''ABCDEFGHIJKLMNOPQRSTUVWXYZ'')"

definition is_alnum :: "char \<Rightarrow> bool" where
  "is_alnum c = (is_lower c \<or> is_upper c \<or> is_digit c)"

definition py_lower_char :: "char \<Rightarrow> char" where
  "py_lower_char c =
     (case map_of (zip ''ABCDEFGHIJKLMNOPQRSTUVWXYZ'' ''abcdefghijklmnopqrstuvwxyz'') c of
        Some l \<Rightarrow> l
      | None \<Rightarrow> c)"

definition py_lower :: "string \<Rightarrow> string" where
  "py_lower s = map py_lower_char s"

text \<open>\<^verbatim>\<open>sub in s\<close> for strings.\<close>

fun py_in :: "string \<Rightarrow> string \<Rightarrow> bool" where
  "py_in sub [] = (sub = [])"
| "py_in sub (c # cs) = (prefix sub (c # cs) \<or> py_in sub cs)"

text \<open>\<^verbatim>\<open>s.count(sub)\<close> for a non-empty \<open>sub\<close>: occurrences that do not overlap, from the
  left. The counter \<open>k\<close> is the number of characters of the last occurrence still to skip.\<close>

fun count_from :: "string \<Rightarrow> nat \<Rightarrow> string \<Rightarrow> nat" where
  "count_from sub k [] = 0"
| "count_from sub k (c # cs) =
     (if 0 < k then count_from sub (k - 1) cs
      else if prefix sub (c # cs) then Suc (count_from sub (length sub - 1) cs)
      else count_from sub 0 cs)"

definition py_count :: "string \<Rightarrow> string \<Rightarrow> nat" where
  "py_count s sub = count_from sub 0 s"

text \<open>\<^verbatim>\<open>sep.join(xs)\<close>.\<close>

fun py_join :: "string \<Rightarrow> string list \<Rightarrow> string" where
  "py_join sep [] = []"
| "py_join sep [x] = x"
| "py_join sep (x # y # ys) = x @ sep @ py_join sep (y # ys)"

text \<open>White space as \<^verbatim>\<open>str.strip()\<close> sees it, within ASCII.\<close>

definition is_space :: "char \<Rightarrow> bool" where
  "is_space c = (of_char c \<in> {9, 10, 11, 12, 13, 28, 29, 30, 31, 32 :: nat})"

definition py_strip :: "string \<Rightarrow> string" where
  "py_strip s = rev (dropWhile is_space (rev (dropWhile is_space s)))"

section \<open>Conversions: \<^verbatim>\<open>int()\<close> and \<^verbatim>\<open>str()\<close>\<close>

text \<open>
  \<^verbatim>\<open>int(s)\<close> for a string, base 10: surrounding white space (tab to carriage return, and
  the space), an optional sign, then digits,
  where single underscores may separate digits. Anything else is a \<^verbatim>\<open>ValueError\<close> (\<open>None\<close>).
  The interpreter's configurable limit on the number of digits in conversions between
  \<^verbatim>\<open>int\<close> and \<^verbatim>\<open>str\<close> is taken as lifted.
\<close>

fun digits_ok :: "bool \<Rightarrow> string \<Rightarrow> bool" where
  "digits_ok prev_digit [] = prev_digit"
| "digits_ok prev_digit (c # cs) =
     (if is_digit c then digits_ok True cs
      else if c = CHR ''_'' \<and> prev_digit then digits_ok False cs
      else False)"

definition digit_val :: "char \<Rightarrow> nat" where
  "digit_val c = of_char c - 48"

definition digits_val :: "string \<Rightarrow> nat" where
  "digits_val s = foldl (\<lambda>acc c. 10 * acc + digit_val c) 0 (filter is_digit s)"

definition is_int_space :: "char \<Rightarrow> bool" where
  "is_int_space c = (of_char c \<in> {9, 10, 11, 12, 13, 32 :: nat})"

definition int_of_str :: "string \<Rightarrow> int option" where
  "int_of_str s =
     (let t = rev (dropWhile is_int_space (rev (dropWhile is_int_space s)));
          neg = (t \<noteq> [] \<and> hd t = CHR ''-'');
          body = (if t \<noteq> [] \<and> (hd t = CHR ''-'' \<or> hd t = CHR ''+'') then tl t else t)
      in if digits_ok False body
         then Some (if neg then - int (digits_val body) else int (digits_val body))
         else None)"

fun py_int :: "json \<Rightarrow> py_error + int" where
  "py_int (JInt i) = Inr i"
| "py_int (JBool b) = Inr (if b then 1 else 0)"
| "py_int (JStr s) = (case int_of_str s of Some i \<Rightarrow> Inr i | None \<Rightarrow> Inl ValueError)"
| "py_int JNull = Inl TypeError"
| "py_int (JList xs) = Inl TypeError"
| "py_int (JDict kvs) = Inl TypeError"

text \<open>\<^verbatim>\<open>str(x)\<close>: a string is returned as it is, every other value as its \<^verbatim>\<open>repr\<close>.\<close>

fun str_of_nat :: "nat \<Rightarrow> string" where
  "str_of_nat n =
     (if n < 10 then [''0123456789'' ! n]
      else str_of_nat (n div 10) @ [''0123456789'' ! (n mod 10)])"

definition str_of_int :: "int \<Rightarrow> string" where
  "str_of_int i = (if i < 0 then CHR ''-'' # str_of_nat (nat (- i)) else str_of_nat (nat i))"

definition hex2 :: "nat \<Rightarrow> string" where
  "hex2 n = [''0123456789abcdef'' ! (n div 16), ''0123456789abcdef'' ! (n mod 16)]"

definition repr_char :: "char \<Rightarrow> char \<Rightarrow> string" where
  "repr_char quote c =
     (if c = quote \<or> c = CHR 0x5C then [CHR 0x5C, c]
      else if c = CHR 0x09 then [CHR 0x5C, CHR ''t'']
      else if c = CHR 0x0A then [CHR 0x5C, CHR ''n'']
      else if c = CHR 0x0D then [CHR 0x5C, CHR ''r'']
      else if of_char c < (32 :: nat) \<or> of_char c = (127 :: nat)
           then [CHR 0x5C, CHR ''x''] @ hex2 (of_char c)
      else [c])"

definition repr_str :: "string \<Rightarrow> string" where
  "repr_str s =
     (let quote = (if CHR 0x27 \<in> set s \<and> CHR 0x22 \<notin> set s then CHR 0x22 else CHR 0x27)
      in [quote] @ concat (map (repr_char quote) s) @ [quote])"

fun py_repr :: "json \<Rightarrow> string"
  and repr_elems :: "json list \<Rightarrow> string list"
  and repr_items :: "(string \<times> json) list \<Rightarrow> string list" where
  "py_repr JNull = ''None''"
| "py_repr (JBool b) = (if b then ''True'' else ''False'')"
| "py_repr (JInt i) = str_of_int i"
| "py_repr (JStr s) = repr_str s"
| "py_repr (JList xs) = ''['' @ py_join '', '' (repr_elems xs) @ '']''"
| "py_repr (JDict kvs) = ''{'' @ py_join '', '' (repr_items kvs) @ ''}''"
| "repr_elems [] = []"
| "repr_elems (x # xs) = py_repr x # repr_elems xs"
| "repr_items [] = []"
| "repr_items ((k, v) # kvs) = (repr_str k @ '': '' @ py_repr v) # repr_items kvs"

definition py_str :: "json \<Rightarrow> string" where
  "py_str v = (case v of JStr s \<Rightarrow> s | _ \<Rightarrow> py_repr v)"

section \<open>The regular expressions of the extractors\<close>

text \<open>
  Each pattern of the source is passed to \<^verbatim>\<open>re.search\<close>, whose result is only tested for
  a match (and, for the file extension, measured). A function \<open>*_at\<close> decides a match that
  starts at the head of the string; the search tries every start position from the left.
\<close>

text \<open>\<^verbatim>\<open>\.([a-zA-Z0-9]{1,6})$\<close>: a dot, one to six alphanumerics, then the end of the string
  or a final newline. The result is the length of group 1.\<close>

definition ext_at :: "string \<Rightarrow> nat option" where
  "ext_at s =
     (case s of
        [] \<Rightarrow> None
      | c # r \<Rightarrow>
          (let g = takeWhile is_alnum r; t = dropWhile is_alnum r
           in if c = CHR ''.'' \<and> 1 \<le> length g \<and> length g \<le> 6 \<and> (t = [] \<or> t = [CHR 0x0A])
              then Some (length g) else None))"

fun search_ext :: "string \<Rightarrow> nat option" where
  "search_ext [] = None"
| "search_ext (c # cs) =
     (case ext_at (c # cs) of Some n \<Rightarrow> Some n | None \<Rightarrow> search_ext cs)"

text \<open>\<^verbatim>\<open>[0-9a-z]{15,}\<close>: a run of at least fifteen lower-case alphanumerics; \<open>n\<close> is the
  length of the run that ends here.\<close>

fun search_run :: "nat \<Rightarrow> string \<Rightarrow> bool" where
  "search_run n [] = (15 \<le> n)"
| "search_run n (c # cs) =
     (15 \<le> n \<or> (if is_digit c \<or> is_lower c then search_run (Suc n) cs else search_run 0 cs))"

text \<open>\<^verbatim>\<open>https?://\d{1,3}(\.\d{1,3}){3}\<close>. A group \<^verbatim>\<open>\d{1,3}\<close> that a dot must follow is a
  run of one to three digits ending at that dot; the last group only needs one digit.\<close>

definition octet_dot :: "string \<Rightarrow> string option" where
  "octet_dot s =
     (let g = takeWhile is_digit s; t = dropWhile is_digit s
      in if 1 \<le> length g \<and> length g \<le> 3 \<and> t \<noteq> [] \<and> hd t = CHR ''.'' then Some (tl t) else None)"

definition ip_at :: "string \<Rightarrow> bool" where
  "ip_at s =
     (let r = (if prefix ''https://'' s then Some (drop 8 s)
               else if prefix ''http://'' s then Some (drop 7 s) else None)
      in case Option.bind (Option.bind (Option.bind r octet_dot) octet_dot) octet_dot of
           None \<Rightarrow> False
         | Some t \<Rightarrow> t \<noteq> [] \<and> is_digit (hd t))"

fun search_ip :: "string \<Rightarrow> bool" where
  "search_ip [] = False"
| "search_ip (c # cs) = (ip_at (c # cs) \<or> search_ip cs)"

section \<open>\<^verbatim>\<open>urllib.parse.urlparse\<close>\<close>

record parse_result =
  pr_scheme :: string
  pr_netloc :: string
  pr_path :: string
  pr_params :: string
  pr_query :: string
  pr_fragment :: string

text \<open>
  The extractor is given the parser as its first argument, a function from the URL string to
  the parse result or the exception raised; the theorems that speak of every record hold
  for every such function. The function \<open>urlparse\<close> below follows the \<^verbatim>\<open>str\<close> path of CPython
  3.11's \<^verbatim>\<open>urlsplit\<close> and \<^verbatim>\<open>urlparse\<close> on ASCII text and is the parser of the evaluated
  examples. A host in square brackets is accepted when the brackets are paired; CPython
  also checks that it is an IP literal.
\<close>

definition split1 :: "char \<Rightarrow> string \<Rightarrow> string \<times> string" where
  "split1 c s = (takeWhile (\<lambda>x. x \<noteq> c) s, drop 1 (dropWhile (\<lambda>x. x \<noteq> c) s))"

definition scheme_chars :: "char set" where
  "scheme_chars = set ''abcdefghijklmnopqrstuvwxyzABCDEFGHIJKLMNOPQRSTUVWXYZ0123456789+-.''"

definition urlsplit :: "string \<Rightarrow> py_error + (string \<times> string \<times> string \<times> string \<times> string)" where
  "urlsplit url0 =
     (let url1 = dropWhile (\<lambda>c. of_char c \<le> (32 :: nat)) url0;
          url2 = filter (\<lambda>c. c \<noteq> CHR 0x09 \<and> c \<noteq> CHR 0x0D \<and> c \<noteq> CHR 0x0A) url1;
          head = takeWhile (\<lambda>c. c \<noteq> CHR '':'') url2;
          has_scheme = (CHR '':'' \<in> set url2 \<and> head \<noteq> []
                        \<and> (is_lower (hd url2) \<or> is_upper (hd url2))
                        \<and> (\<forall>c \<in> set head. c \<in> scheme_chars));
          scheme = (if has_scheme then py_lower head else []);
          url3 = (if has_scheme then drop (Suc (length head)) url2 else url2);
          has_netloc = (take 2 url3 = ''//'');
          netloc = (if has_netloc then takeWhile (\<lambda>c. c \<notin> set ''/?#'') (drop 2 url3) else []);
          url4 = (if has_netloc then dropWhile (\<lambda>c. c \<notin> set ''/?#'') (drop 2 url3) else url3)
      in if has_netloc \<and> ((CHR ''['' \<in> set netloc) \<noteq> (CHR '']'' \<in> set netloc))
         then Inl ValueError
         else
           (let (url5, fragment) = (if CHR ''#'' \<in> set url4 then split1 CHR ''#'' url4 else (url4, []));
                (url6, query) = (if CHR ''?'' \<in> set url5 then split1 CHR ''?'' url5 else (url5, []))
            in Inr (scheme, netloc, url6, query, fragment)))"

definition uses_params :: "string list" where
  "uses_params = ['''', ''ftp'', ''hdl'', ''prospero'', ''http'', ''imap'', ''https'', ''shttp'',
     ''rtsp'', ''rtsps'', ''rtspu'', ''sip'', ''sips'', ''mms'', ''sftp'', ''tel'']"

definition splitparams :: "string \<Rightarrow> string \<times> string" where
  "splitparams url =
     (let seg = rev (takeWhile (\<lambda>c. c \<noteq> CHR ''/'') (rev url));
          before = take (length url - length seg) url
      in if CHR '';'' \<in> set seg
         then (before @ takeWhile (\<lambda>c. c \<noteq> CHR '';'') seg, drop 1 (dropWhile (\<lambda>c. c \<noteq> CHR '';'') seg))
         else (url, []))"

definition urlparse :: "string \<Rightarrow> py_error + parse_result" where
  "urlparse url =
     py_bind (urlsplit url) (\<lambda>(scheme, netloc, url', query, fragment).
       let (url'', params) =
             (if scheme \<in> set uses_params \<and> CHR '';'' \<in> set url' then splitparams url' else (url', []))
       in Inr \<lparr>pr_scheme = scheme, pr_netloc = netloc, pr_path = url'', pr_params = params,
                pr_query = query, pr_fragment = fragment\<rparr>)"

section \<open>Floats\<close>

text \<open>
  The extractors form a float in two ways: by the true division \<^verbatim>\<open>a / b\<close> of two integers
  that are lengths or counts, and by \<^verbatim>\<open>round(x, 3)\<close> of such a quotient. Both are correctly
  rounded in CPython: \<^verbatim>\<open>a / b\<close> is the double nearest to the exact quotient, and
  \<^verbatim>\<open>round(x, 3)\<close> converts the double \<open>x\<close> to the nearest decimal with three places (a tie
  going to the even last digit) and that decimal back to the nearest double. A double
  nearest to a rational has a significand of 53 bits, a tie going to the even significand.
  The range of the exponent is not modelled: the quotients of two lengths lie far inside
  the range of the normal doubles.
\<close>

text \<open>\<^verbatim>\<open>int.bit_length\<close>: the number of binary digits of a positive integer.\<close>

function bit_length :: "int \<Rightarrow> nat" where
  "bit_length k = (if k \<le> 0 then 0 else Suc (bit_length (k div 2)))"
  by auto

termination
  by (relation "measure nat") auto

declare bit_length.simps [simp del]

definition pow2 :: "int \<Rightarrow> rat" where
  "pow2 i = (if 0 \<le> i then 2 ^ nat i else 1 / 2 ^ nat (- i))"

text \<open>The integer nearest to \<open>x\<close>, a tie going to the even one.\<close>

definition round_half_even :: "rat \<Rightarrow> int" where
  "round_half_even x =
     (let f = \<lfloor>x\<rfloor>; r = x - of_int f
      in if r < 1 / 2 then f else if 1 / 2 < r then f + 1 else if even f then f else f + 1)"

text \<open>For positive \<open>a\<close> and \<open>b\<close>, the exponent \<open>e\<close> with \<open>pow2 e \<le> a / b < pow2 (e + 1)\<close>.\<close>

definition binary_exponent :: "int \<Rightarrow> int \<Rightarrow> int" where
  "binary_exponent a b =
     (let k = int (bit_length a) - int (bit_length b)
      in if pow2 k \<le> of_int a / of_int b then k else k - 1)"

text \<open>The double nearest to \<open>a / b\<close>, for a positive \<open>b\<close>: the quotient is rounded to a
  multiple of the unit in the last place of its binade.\<close>

definition nearest_double :: "int \<Rightarrow> int \<Rightarrow> rat" where
  "nearest_double a b =
     (if a = 0 then 0
      else
        (let q = of_int \<bar>a\<bar> / of_int b;
             ulp = pow2 (binary_exponent \<bar>a\<bar> b - 52);
             m = of_int (round_half_even (q / ulp)) * ulp
         in if a < 0 then - m else m))"

text \<open>\<^verbatim>\<open>a / b\<close> for two lengths; the divisor is positive at both uses.\<close>

definition py_truediv :: "nat \<Rightarrow> nat \<Rightarrow> rat" where
  "py_truediv a b = nearest_double (int a) (int b)"

text \<open>\<^verbatim>\<open>round(x, 3)\<close> for a double \<open>x\<close>.\<close>

definition py_round3 :: "rat \<Rightarrow> rat" where
  "py_round3 x = nearest_double (round_half_even (x * 1000)) 1000"

definition int_of_bool :: "bool \<Rightarrow> int" where
  "int_of_bool b = (if b then 1 else 0)"

section \<open>\<^verbatim>\<open>extract_general_features\<close>\<close>

text \<open>Methods and functions that the extractor applies to a value of unknown type.\<close>

definition str_or :: "string \<Rightarrow> string \<Rightarrow> string" where
  "str_or a b = (if a \<noteq> [] then a else b)"

text \<open>\<^verbatim>\<open>x.count(sub)\<close>: a string counts occurrences, a list counts equal elements, a
  dictionary has no such method. It is only called after \<^verbatim>\<open>len(x)\<close> has succeeded.\<close>

fun py_count_method :: "json \<Rightarrow> string \<Rightarrow> py_error + nat" where
  "py_count_method (JStr s) sub = Inr (py_count s sub)"
| "py_count_method (JList xs) sub = Inr (length (filter (\<lambda>x. x = JStr sub) xs))"
| "py_count_method (JDict kvs) sub = Inl AttributeError"
| "py_count_method JNull sub = Inl AttributeError"
| "py_count_method (JBool b) sub = Inl AttributeError"
| "py_count_method (JInt i) sub = Inl AttributeError"

text \<open>\<^verbatim>\<open>re.search(pattern, x)\<close> wants a string.\<close>

definition py_re_search :: "(string \<Rightarrow> 'a) \<Rightarrow> json \<Rightarrow> py_error + 'a" where
  "py_re_search matcher x = (case x of JStr s \<Rightarrow> Inr (matcher s) | _ \<Rightarrow> Inl TypeError)"

definition suspicious_terms :: "string list" where
  "suspicious_terms = [''login'', ''update'', ''verify'', ''secure'', ''bank'', ''account'',
     ''signin'', ''password'', ''confirm'']"

text \<open>
  The body follows the source statement by statement. The first \<^verbatim>\<open>data.get\<close> needs a
  dictionary. \<^verbatim>\<open>urlparse\<close> treats an argument that is not a string as \<^verbatim>\<open>bytes\<close> and
  calls its \<^verbatim>\<open>decode\<close>, which no JSON value has; so after it \<open>url\<close> is a string.
  Each key is assigned once, so the returned dictionary is the list of the assignments.
\<close>

definition extract_general_features ::
  "(string \<Rightarrow> py_error + parse_result) \<Rightarrow> json \<Rightarrow> py_error + features" where
  "extract_general_features up data =
     py_bind (py_dict data) (\<lambda>d.
     py_bind (py_str_receiver (py_or (dict_get d ''url'' (JStr [])) (JStr []))) (\<lambda>url.
     py_bind (up url) (\<lambda>parsed.
     let url_length = length url;
         path = str_or (pr_path parsed) [];
         query = str_or (pr_query parsed) [];
         num_path_segments = (if path \<noteq> [] then py_count path ''/'' else 0);
         num_query_params = (if query \<noteq> [] then py_count query ''&'' + 1 else 0);
         match_ext = search_ext path;
         subdomain = py_or (dict_get d ''subdomain'' (JStr []))
                       (JStr (str_or (pr_netloc parsed) []))
     in
     py_bind (py_int (dict_get d ''has_subdomain'' (JBool False))) (\<lambda>has_subdomain.
     py_bind (py_len subdomain) (\<lambda>subdomain_length.
     py_bind (py_count_method subdomain ''.'') (\<lambda>num_subdomain_levels.
     py_bind (py_re_search (search_run 0) subdomain) (\<lambda>contains_random_subdomain.
     let num_digits_in_url = length (filter is_digit url);
         num_special_chars = length (filter (\<lambda>c. \<not> is_alnum c) url);
         contains_ip_in_url = search_ip url;
         contains_encoded_chars =
           (CHR ''%'' \<in> set url \<or> (\<exists>c \<in> set ''+-_=''. c \<in> set url));
         contains_suspicious_keyword =
           (\<exists>term \<in> set suspicious_terms. py_in term (py_lower url));
         digit_ratio = py_round3 (py_truediv num_digits_in_url (url_length + 1));
         special_char_ratio = py_round3 (py_truediv num_special_chars (url_length + 1));
         dns_status = py_lower (py_str (dict_get d ''dns_status'' (JStr [])))
     in
     py_bind (py_int (dict_get d ''content_status'' (JInt 0))) (\<lambda>content_status.
     let dns_resolves = py_in ''resolve'' dns_status;
         dns_error = (py_in ''error'' dns_status \<or> py_in ''fail'' dns_status);
         is_http_ok = (200 \<le> content_status \<and> content_status < 300);
         is_http_redirect = (300 \<le> content_status \<and> content_status < 400);
         is_http_client_error = (400 \<le> content_status \<and> content_status < 500);
         is_http_server_error = (500 \<le> content_status \<and> content_status < 600);
         is_complex_url =
           (80 < url_length \<or> 10 < num_special_chars \<or> contains_random_subdomain);
         is_suspicious_dns_or_status =
           (dns_error \<or> is_http_client_error \<or> is_http_server_error);
         tech_info = dict_get d ''tech_info'' (JList [])
     in
     py_bind (py_len tech_info) (\<lambda>tech_info_count.
     Inr [(''url_length'', VInt (int url_length)),
          (''scheme_http'', VInt (int_of_bool (pr_scheme parsed = ''http''))),
          (''scheme_https'', VInt (int_of_bool (pr_scheme parsed = ''https''))),
          (''path_length'', VInt (int (length path))),
          (''query_length'', VInt (int (length query))),
          (''num_path_segments'', VInt (int num_path_segments)),
          (''num_query_params'', VInt (int num_query_params)),
          (''has_query'', VInt (int_of_bool (query \<noteq> []))),
          (''has_file_extension'', VInt (int_of_bool (match_ext \<noteq> None))),
          (''file_extension_len'', VInt (case match_ext of Some n \<Rightarrow> int n | None \<Rightarrow> 0)),
          (''has_subdomain'', VInt has_subdomain),
          (''subdomain_length'', VInt (int subdomain_length)),
          (''num_subdomain_levels'', VInt (int num_subdomain_levels)),
          (''contains_random_subdomain'', VInt (int_of_bool contains_random_subdomain)),
          (''num_digits_in_url'', VInt (int num_digits_in_url)),
          (''num_special_chars'', VInt (int num_special_chars)),
          (''contains_ip_in_url'', VInt (int_of_bool contains_ip_in_url)),
          (''contains_encoded_chars'', VInt (int_of_bool contains_encoded_chars)),
          (''contains_suspicious_keyword'', VInt (int_of_bool contains_suspicious_keyword)),
          (''digit_ratio'', VFloat digit_ratio),
          (''special_char_ratio'', VFloat special_char_ratio),
          (''dns_resolves'', VInt (int_of_bool dns_resolves)),
          (''dns_error'', VInt (int_of_bool dns_error)),
          (''content_status'', VInt content_status),
          (''is_http_ok'', VInt (int_of_bool is_http_ok)),
          (''is_http_redirect'', VInt (int_of_bool is_http_redirect)),
          (''is_http_client_error'', VInt (int_of_bool is_http_client_error)),
          (''is_http_server_error'', VInt (int_of_bool is_http_server_error)),
          (''is_complex_url'', VInt (int_of_bool is_complex_url)),
          (''is_suspicious_dns_or_status'', VInt (int_of_bool is_suspicious_dns_or_status)),
          (''tech_info_count'', VInt (int tech_info_count)),
          (''has_tech_info'', VInt (int_of_bool (py_bool tech_info)))])))))))))"

section \<open>\<^verbatim>\<open>extract_contentinfo_features\<close>\<close>

text \<open>A \<^verbatim>\<open>for\<close> loop over a list with the loop's variables as the state; it stops at the
  first exception.\<close>

fun py_for :: "('a \<Rightarrow> 's \<Rightarrow> py_error + 's) \<Rightarrow> 'a list \<Rightarrow> 's \<Rightarrow> py_error + 's" where
  "py_for body [] s = Inr s"
| "py_for body (x # xs) s = py_bind (body x s) (py_for body xs)"

text \<open>What iterating over a value yields: the elements of a list, the characters of a
  string, the keys of a dictionary.\<close>

fun py_iter :: "json \<Rightarrow> py_error + json list" where
  "py_iter (JList xs) = Inr xs"
| "py_iter (JStr s) = Inr (map (\<lambda>c. JStr [c]) s)"
| "py_iter (JDict kvs) = Inr (map (\<lambda>(k, v). JStr k) (AList.clearjunk kvs))"
| "py_iter JNull = Inl TypeError"
| "py_iter (JBool b) = Inl TypeError"
| "py_iter (JInt i) = Inl TypeError"

text \<open>\<^verbatim>\<open>x.lower()\<close>: only a string has the method.\<close>

definition py_lower_method :: "json \<Rightarrow> py_error + string" where
  "py_lower_method x = py_bind (py_str_receiver x) (\<lambda>s. Inr (py_lower s))"

text \<open>\<^verbatim>\<open>sub in x\<close> for a string \<open>sub\<close>.\<close>

fun py_contains :: "json \<Rightarrow> string \<Rightarrow> py_error + bool" where
  "py_contains (JStr s) sub = Inr (py_in sub s)"
| "py_contains (JList xs) sub = Inr (JStr sub \<in> set xs)"
| "py_contains (JDict kvs) sub = Inr (sub \<in> set (map fst kvs))"
| "py_contains JNull sub = Inl TypeError"
| "py_contains (JBool b) sub = Inl TypeError"
| "py_contains (JInt i) sub = Inl TypeError"

text \<open>\<^verbatim>\<open>len(set(xs))\<close>: lists and dictionaries cannot be hashed; \<^verbatim>\<open>True\<close> and \<^verbatim>\<open>False\<close>
  are equal to 1 and 0.\<close>

fun hashable :: "json \<Rightarrow> bool" where
  "hashable (JList xs) = False"
| "hashable (JDict kvs) = False"
| "hashable v = True"

fun hash_key :: "json \<Rightarrow> json" where
  "hash_key (JBool b) = JInt (if b then 1 else 0)"
| "hash_key v = v"

definition py_set_size :: "json list \<Rightarrow> py_error + nat" where
  "py_set_size xs =
     (if \<forall>x \<in> set xs. hashable x then Inr (length (remdups (map hash_key xs)))
      else Inl TypeError)"

text \<open>The body of the inner loop over the headers of one HAR entry; the state is the pair
  of the lists \<open>servers\<close> and \<open>content_types\<close>.\<close>

definition header_step ::
  "json \<Rightarrow> string list \<times> string list \<Rightarrow> py_error + (string list \<times> string list)" where
  "header_step h acc =
     py_bind (py_get h ''key'' (JStr [])) (\<lambda>k.
     py_bind (py_lower_method k) (\<lambda>key.
     py_bind (py_get h ''value'' (JStr [])) (\<lambda>v.
     py_bind (py_lower_method v) (\<lambda>value.
     let servers = (if key = ''server'' then fst acc @ [value] else fst acc);
         content_types = (if key = ''content-type'' then snd acc @ [value] else snd acc)
     in Inr (servers, content_types)))))"

definition entry_step ::
  "json \<Rightarrow> string list \<times> string list \<Rightarrow> py_error + (string list \<times> string list)" where
  "entry_step entry acc =
     py_bind (py_get entry ''response'' (JDict [])) (\<lambda>response.
     py_bind (py_get response ''headers'' (JList [])) (\<lambda>headers.
     py_bind (py_iter headers) (\<lambda>hs.
     py_for header_step hs acc)))"

text \<open>The comprehension \<^verbatim>\<open>[r.get("md5") for r in responses if "md5" in r]\<close>.\<close>

definition md5_step :: "json \<Rightarrow> json list \<Rightarrow> py_error + json list" where
  "md5_step r acc =
     py_bind (py_contains r ''md5'') (\<lambda>present.
     if present then py_bind (py_get r ''md5'' JNull) (\<lambda>v. Inr (acc @ [v])) else Inr acc)"

text \<open>The generators summed over \<open>responses\<close>.\<close>

definition file_type_len_step :: "json \<Rightarrow> nat \<Rightarrow> py_error + nat" where
  "file_type_len_step r acc =
     py_bind (py_get r ''file_type'' (JStr [])) (\<lambda>ft.
     py_bind (py_len ft) (\<lambda>n. Inr (acc + n)))"

definition file_type_has_step :: "string \<Rightarrow> json \<Rightarrow> nat \<Rightarrow> py_error + nat" where
  "file_type_has_step sub r acc =
     py_bind (py_get r ''file_type'' (JStr [])) (\<lambda>ft.
     py_bind (py_lower_method ft) (\<lambda>t. Inr (acc + (if py_in sub t then 1 else 0))))"

text \<open>
  \<^verbatim>\<open>destination.startswith\<close> needs a string, so from there on \<open>dest\<close> is the string that
  \<open>destination\<close> holds.
\<close>

definition extract_contentinfo_features :: "json \<Rightarrow> py_error + features" where
  "extract_contentinfo_features content_info =
     py_bind (py_dict content_info) (\<lambda>d.
     py_bind (py_int (dict_get d ''status_code'' (JInt 0))) (\<lambda>status_code.
     let has_error = (dict_get d ''error_msg'' JNull \<noteq> JNull) in
     py_bind (if py_bool (dict_get d ''title'' JNull)
              then py_len (dict_get d ''title'' (JStr [])) else Inr 0) (\<lambda>title_length.
     let has_html = py_bool (dict_get d ''html'' JNull) in
     py_bind (py_len (dict_get d ''html'' (JStr []))) (\<lambda>html_length.
     py_bind (py_lower_method (dict_get d ''html'' (JStr []))) (\<lambda>html.
     let contains_loader_text =
           (\<exists>p \<in> set [''please wait'', ''loading'', ''redirect'']. py_in p html);
         contains_script_tag = py_in ''<script'' html;
         contains_iframe = py_in ''<iframe'' html;
         contains_form = py_in ''<form'' html;
         num_links = py_count html ''href='';
         num_scripts = py_count html ''<script'';
         destination = dict_get d ''destination'' (JStr [])
     in
     py_bind (py_len destination) (\<lambda>url_length.
     py_bind (py_count_method destination ''.'') (\<lambda>num_subdomains.
     py_bind (py_str_receiver destination) (\<lambda>dest.
     let uses_https = prefix ''https'' dest;
         contains_ip_in_url = search_ip dest;
         contains_encoded_chars =
           (CHR ''%'' \<in> set dest \<or> (\<exists>x \<in> set ''+-_''. x \<in> set dest));
         is_arweave_host = (py_in ''.ar-io.dev'' dest \<or> py_in ''arweave'' dest);
         har_entries = dict_get d ''har'' (JList []);
         responses = dict_get d ''responses'' (JList [])
     in
     py_bind (py_len har_entries) (\<lambda>num_requests.
     py_bind (py_len responses) (\<lambda>num_responses.
     py_bind (py_iter har_entries) (\<lambda>entries.
     py_bind (py_for entry_step entries ([], [])) (\<lambda>(servers, content_types).
     let server_string = py_join '' '' servers;
         content_string = py_join '' '' content_types;
         num_js_files = length (filter (py_in ''javascript'') content_types);
         num_css_files = length (filter (py_in ''css'') content_types);
         num_html_files = length (filter (py_in ''html'') content_types)
     in
     py_bind (py_iter responses) (\<lambda>rs.
     py_bind (py_for md5_step rs []) (\<lambda>md5_list.
     py_bind (py_set_size md5_list) (\<lambda>num_unique_md5.
     py_bind (py_for file_type_len_step rs 0) (\<lambda>total_len.
     let avg_file_size_class =
           py_truediv total_len (if num_responses \<noteq> 0 then num_responses else 1)
     in
     py_bind (py_for (file_type_has_step ''long lines'') rs 0) (\<lambda>num_long_lines_files.
     py_bind (py_for (file_type_has_step ''ascii'') rs 0) (\<lambda>num_ascii_files.
     let is_suspicious_loader_page =
           (contains_loader_text \<and> 3 < num_js_files \<and> 100 < url_length);
         is_heavy_page = (10000 < html_length \<and> 5 < num_requests)
     in
     Inr [(''status_code'', VInt status_code),
          (''has_error'', VInt (int_of_bool has_error)),
          (''title_length'', VInt (int title_length)),
          (''has_html'', VInt (int_of_bool has_html)),
          (''html_length'', VInt (int html_length)),
          (''contains_loader_text'', VInt (int_of_bool contains_loader_text)),
          (''contains_script_tag'', VInt (int_of_bool contains_script_tag)),
          (''contains_iframe'', VInt (int_of_bool contains_iframe)),
          (''contains_form'', VInt (int_of_bool contains_form)),
          (''num_links'', VInt (int num_links)),
          (''num_scripts'', VInt (int num_scripts)),
          (''url_length'', VInt (int url_length)),
          (''num_subdomains'', VInt (int num_subdomains)),
          (''uses_https'', VInt (int_of_bool uses_https)),
          (''contains_ip_in_url'', VInt (int_of_bool contains_ip_in_url)),
          (''contains_encoded_chars'', VInt (int_of_bool contains_encoded_chars)),
          (''is_arweave_host'', VInt (int_of_bool is_arweave_host)),
          (''num_requests'', VInt (int num_requests)),
          (''num_responses'', VInt (int num_responses)),
          (''has_cloudflare'', VInt (int_of_bool (py_in ''cloudflare'' server_string))),
          (''has_aws_cloudfront'', VInt (int_of_bool (py_in ''cloudfront'' server_string))),
          (''has_tencent_cos'', VInt (int_of_bool (py_in ''tencent-cos'' server_string))),
          (''num_js_files'', VInt (int num_js_files)),
          (''num_css_files'', VInt (int num_css_files)),
          (''num_html_files'', VInt (int num_html_files)),
          (''has_gzip_encoding'', VInt (int_of_bool (py_in ''gzip'' content_string))),
          (''has_csp_header'',
             VInt (int_of_bool (py_in ''content-security-policy'' content_string))),
          (''num_unique_md5'', VInt (int num_unique_md5)),
          (''avg_file_size_class'', VFloat avg_file_size_class),
          (''num_long_lines_files'', VInt (int num_long_lines_files)),
          (''num_ascii_files'', VInt (int num_ascii_files)),
          (''is_suspicious_loader_page'', VInt (int_of_bool is_suspicious_loader_page)),
          (''is_heavy_page'', VInt (int_of_bool is_heavy_page))]))))))))))))))))))"

section \<open>The orchestrator\<close>

text \<open>
  A row is a dictionary like a feature dictionary. \<^verbatim>\<open>row[k] = v\<close> is \<^const>\<open>AList.update\<close>:
  the value of a present key is replaced in place, a new key is appended.
  \<^verbatim>\<open>row.update(d)\<close> stores the items of \<open>d\<close> in their order, one per key.
\<close>

type_synonym row = "(string \<times> pyval) list"

definition dict_update :: "row \<Rightarrow> features \<Rightarrow> row" where
  "dict_update row d = foldl (\<lambda>r (k, v). AList.update k v r) row (AList.clearjunk d)"

text \<open>
  \<^verbatim>\<open>safe_call\<close>: every exception of the extractor is caught and replaced by the empty
  dictionary. The extractors are typed to return a dictionary, so the \<^verbatim>\<open>isinstance\<close> test
  on the result passes. The diagnostic output is not modelled.
\<close>

definition safe_call :: "(json \<Rightarrow> py_error + features) \<Rightarrow> json \<Rightarrow> features" where
  "safe_call func arg =
     (case func (if arg = JNull then JDict [] else arg) of
        Inl e \<Rightarrow> []
      | Inr result \<Rightarrow> result)"

text \<open>
  What the orchestrator takes from outside this repository's three files: the parser
  \<^verbatim>\<open>urlparse\<close>, the two extractors \<^verbatim>\<open>extract_hostinfo_features\<close> and
  \<^verbatim>\<open>extract_additional_features\<close>, \<^verbatim>\<open>json.loads\<close> (\<open>None\<close> when it raises) and the file
  system: for a folder path, \<open>None\<close> when the folder does not exist, else its entries in the
  order of \<^verbatim>\<open>os.listdir\<close>, each with the text read from it (\<open>None\<close> when opening or reading
  raises).
\<close>

record env =
  env_urlparse :: "string \<Rightarrow> py_error + parse_result"
  extract_hostinfo_features :: "json \<Rightarrow> py_error + features"
  extract_additional_features :: "json \<Rightarrow> py_error + features"
  json_loads :: "string \<Rightarrow> json option"
  listdir :: "string \<Rightarrow> (string \<times> string option) list option"

definition BENIGN_PATH :: string where
  "BENIGN_PATH = ''D:/Downloads/benign''"

definition MALICIOUS_PATH :: string where
  "MALICIOUS_PATH = ''D:/Downloads/malicious''"

definition load_json_file :: "env \<Rightarrow> string option \<Rightarrow> json option" where
  "load_json_file E file =
     (case file of
        None \<Rightarrow> None
      | Some text \<Rightarrow>
          (let content = py_strip text
           in if content = [] then None else json_loads E content))"

text \<open>The body of the loop over the files of one folder, from the loaded \<open>data\<close> on:
  \<open>None\<close> when the file is skipped, else the row that is appended to \<open>data_rows\<close>.\<close>

definition build_row :: "env \<Rightarrow> int \<Rightarrow> string \<Rightarrow> string \<Rightarrow> json option \<Rightarrow> row option" where
  "build_row E label category_name filename loaded =
     (case loaded of
        None \<Rightarrow> None
      | Some data \<Rightarrow>
          if \<not> py_bool data then None
          else
            (case data of
               JDict d \<Rightarrow>
                 (let row0 = dict_update [] (safe_call (extract_general_features (env_urlparse E)) data);
                      host_info = py_or (dict_get d ''host_info'' JNull) (JDict []);
                      content_info = py_or (dict_get d ''content_info'' JNull) (JDict []);
                      additional = py_or (dict_get d ''additional'' JNull) (JDict []);
                      row1 = dict_update row0 (safe_call (extract_hostinfo_features E) host_info);
                      row2 = dict_update row1 (safe_call extract_contentinfo_features content_info);
                      row3 = dict_update row2 (safe_call (extract_additional_features E) additional);
                      row4 = AList.update ''label'' (VInt label) row3;
                      row5 = AList.update ''filename'' (VStr filename) row4;
                      row6 = AList.update ''category'' (VStr category_name) row5
                  in Some row6)
             | _ \<Rightarrow> None))"

definition is_json_name :: "string \<Rightarrow> bool" where
  "is_json_name fn = suffix ''.json'' (py_lower fn)"

text \<open>The rows that the files of one folder append, in order, and the rows of one
  category: none when the folder does not exist.\<close>

definition file_rows :: "env \<Rightarrow> int \<Rightarrow> string \<Rightarrow> (string \<times> string option) list \<Rightarrow> row list" where
  "file_rows E label category_name entries =
     List.map_filter
       (\<lambda>(filename, file). build_row E label category_name filename (load_json_file E file))
       (filter (\<lambda>(filename, file). is_json_name filename) entries)"

definition folder_rows :: "env \<Rightarrow> string \<times> int \<times> string \<Rightarrow> row list" where
  "folder_rows E cat =
     (case cat of (folder_path, label, category_name) \<Rightarrow>
        (case listdir E folder_path of
           None \<Rightarrow> []
         | Some entries \<Rightarrow> file_rows E label category_name entries))"

definition categories :: "(string \<times> int \<times> string) list" where
  "categories = [(BENIGN_PATH, 1, ''benign''), (MALICIOUS_PATH, 0, ''malicious'')]"

definition data_rows :: "env \<Rightarrow> row list" where
  "data_rows E = concat (map (folder_rows E) categories)"

text \<open>
  \<^verbatim>\<open>pd.DataFrame(data_rows)\<close> followed by \<^verbatim>\<open>fillna(0)\<close>: the columns are the keys in the order
  of their first appearance, and a cell that a row does not define holds 0. The column
  types of pandas are not modelled.
\<close>

record dataframe =
  columns :: "string list"
  cells :: "pyval list list"

definition build_global_dataframe :: "env \<Rightarrow> dataframe" where
  "build_global_dataframe E =
     (let rows = data_rows E;
          cols = rev (remdups (rev (concat (map (map fst) rows))))
      in \<lparr>columns = cols,
          cells = map (\<lambda>r. map (\<lambda>c. case map_of r c of Some v \<Rightarrow> v | None \<Rightarrow> VInt 0) cols) rows\<rparr>)"

section \<open>The vocabularies\<close>

text \<open>The keys that each extractor assigns, in the order of the assignments.\<close>

definition general_keys :: "string list" where
  "general_keys = [''url_length'', ''scheme_http'', ''scheme_https'', ''path_length'',
     ''query_length'', ''num_path_segments'', ''num_query_params'', ''has_query'',
     ''has_file_extension'', ''file_extension_len'', ''has_subdomain'', ''subdomain_length'',
     ''num_subdomain_levels'', ''contains_random_subdomain'', ''num_digits_in_url'',
     ''num_special_chars'', ''contains_ip_in_url'', ''contains_encoded_chars'',
     ''contains_suspicious_keyword'', ''digit_ratio'', ''special_char_ratio'', ''dns_resolves'',
     ''dns_error'', ''content_status'', ''is_http_ok'', ''is_http_redirect'',
     ''is_http_client_error'', ''is_http_server_error'', ''is_complex_url'',
     ''is_suspicious_dns_or_status'', ''tech_info_count'', ''has_tech_info'']"

definition content_keys :: "string list" where
  "content_keys = [''status_code'', ''has_error'', ''title_length'', ''has_html'', ''html_length'',
     ''contains_loader_text'', ''contains_script_tag'', ''contains_iframe'', ''contains_form'',
     ''num_links'', ''num_scripts'', ''url_length'', ''num_subdomains'', ''uses_https'',
     ''contains_ip_in_url'', ''contains_encoded_chars'', ''is_arweave_host'', ''num_requests'',
     ''num_responses'', ''has_cloudflare'', ''has_aws_cloudfront'', ''has_tencent_cos'',
     ''num_js_files'', ''num_css_files'', ''num_html_files'', ''has_gzip_encoding'',
     ''has_csp_header'', ''num_unique_md5'', ''avg_file_size_class'', ''num_long_lines_files'',
     ''num_ascii_files'', ''is_suspicious_loader_page'', ''is_heavy_page'']"

text \<open>The all-zero vectors: 0.0 for the float features, 0 for the others.\<close>

definition general_default :: features where
  "general_default =
     map (\<lambda>k. (k, if k \<in> {''digit_ratio'', ''special_char_ratio''} then VFloat 0 else VInt 0))
       general_keys"

definition content_default :: features where
  "content_default =
     map (\<lambda>k. (k, if k = ''avg_file_size_class'' then VFloat 0 else VInt 0)) content_keys"

text \<open>Whether a call returned normally.\<close>

definition returns :: "py_error + 'a \<Rightarrow> bool" where
  "returns m = (case m of Inl e \<Rightarrow> False | Inr x \<Rightarrow> True)"

section \<open>The returned dictionaries\<close>

text \<open>
  The dictionary that \<open>extract_general_features\<close> returns, as a function of the values
  that the fallible calls produced on the way; \<open>general_chain\<close> below states that the
  extractor is those calls in sequence followed by this dictionary.
\<close>

definition general_dict ::
  "(string \<times> json) list \<Rightarrow> string \<Rightarrow> parse_result \<Rightarrow> int \<Rightarrow> nat \<Rightarrow> nat \<Rightarrow> bool \<Rightarrow> int \<Rightarrow> nat
     \<Rightarrow> features" where
  "general_dict d url parsed has_subdomain subdomain_length num_subdomain_levels
       contains_random_subdomain content_status tech_info_count =
    (let url_length = length url;
         path = str_or (pr_path parsed) [];
         query = str_or (pr_query parsed) [];
         num_path_segments = (if path \<noteq> [] then py_count path ''/'' else 0);
         num_query_params = (if query \<noteq> [] then py_count query ''&'' + 1 else 0);
         match_ext = search_ext path;
         subdomain = py_or (dict_get d ''subdomain'' (JStr []))
                       (JStr (str_or (pr_netloc parsed) []))
     in
     let num_digits_in_url = length (filter is_digit url);
         num_special_chars = length (filter (\<lambda>c. \<not> is_alnum c) url);
         contains_ip_in_url = search_ip url;
         contains_encoded_chars =
           (CHR ''%'' \<in> set url \<or> (\<exists>c \<in> set ''+-_=''. c \<in> set url));
         contains_suspicious_keyword =
           (\<exists>term \<in> set suspicious_terms. py_in term (py_lower url));
         digit_ratio = py_round3 (py_truediv num_digits_in_url (url_length + 1));
         special_char_ratio = py_round3 (py_truediv num_special_chars (url_length + 1));
         dns_status = py_lower (py_str (dict_get d ''dns_status'' (JStr [])))
     in
     let dns_resolves = py_in ''resolve'' dns_status;
         dns_error = (py_in ''error'' dns_status \<or> py_in ''fail'' dns_status);
         is_http_ok = (200 \<le> content_status \<and> content_status < 300);
         is_http_redirect = (300 \<le> content_status \<and> content_status < 400);
         is_http_client_error = (400 \<le> content_status \<and> content_status < 500);
         is_http_server_error = (500 \<le> content_status \<and> content_status < 600);
         is_complex_url =
           (80 < url_length \<or> 10 < num_special_chars \<or> contains_random_subdomain);
         is_suspicious_dns_or_status =
           (dns_error \<or> is_http_client_error \<or> is_http_server_error);
         tech_info = dict_get d ''tech_info'' (JList [])
     in
     [(''url_length'', VInt (int url_length)),
      (''scheme_http'', VInt (int_of_bool (pr_scheme parsed = ''http''))),
      (''scheme_https'', VInt (int_of_bool (pr_scheme parsed = ''https''))),
      (''path_length'', VInt (int (length path))),
      (''query_length'', VInt (int (length query))),
      (''num_path_segments'', VInt (int num_path_segments)),
      (''num_query_params'', VInt (int num_query_params)),
      (''has_query'', VInt (int_of_bool (query \<noteq> []))),
      (''has_file_extension'', VInt (int_of_bool (match_ext \<noteq> None))),
      (''file_extension_len'', VInt (case match_ext of Some n \<Rightarrow> int n | None \<Rightarrow> 0)),
      (''has_subdomain'', VInt has_subdomain),
      (''subdomain_length'', VInt (int subdomain_length)),
      (''num_subdomain_levels'', VInt (int num_subdomain_levels)),
      (''contains_random_subdomain'', VInt (int_of_bool contains_random_subdomain)),
      (''num_digits_in_url'', VInt (int num_digits_in_url)),
      (''num_special_chars'', VInt (int num_special_chars)),
      (''contains_ip_in_url'', VInt (int_of_bool contains_ip_in_url)),
      (''contains_encoded_chars'', VInt (int_of_bool contains_encoded_chars)),
      (''contains_suspicious_keyword'', VInt (int_of_bool contains_suspicious_keyword)),
      (''digit_ratio'', VFloat digit_ratio),
      (''special_char_ratio'', VFloat special_char_ratio),
      (''dns_resolves'', VInt (int_of_bool dns_resolves)),
      (''dns_error'', VInt (int_of_bool dns_error)),
      (''content_status'', VInt content_status),
      (''is_http_ok'', VInt (int_of_bool is_http_ok)),
      (''is_http_redirect'', VInt (int_of_bool is_http_redirect)),
      (''is_http_client_error'', VInt (int_of_bool is_http_client_error)),
      (''is_http_server_error'', VInt (int_of_bool is_http_server_error)),
      (''is_complex_url'', VInt (int_of_bool is_complex_url)),
      (''is_suspicious_dns_or_status'', VInt (int_of_bool is_suspicious_dns_or_status)),
      (''tech_info_count'', VInt (int tech_info_count)),
      (''has_tech_info'', VInt (int_of_bool (py_bool tech_info)))])"

definition content_dict ::
  "(string \<times> json) list \<Rightarrow> int \<Rightarrow> nat \<Rightarrow> nat \<Rightarrow> string \<Rightarrow> nat \<Rightarrow> nat \<Rightarrow> string \<Rightarrow> nat \<Rightarrow> nat
     \<Rightarrow> string list \<Rightarrow> string list \<Rightarrow> nat \<Rightarrow> nat \<Rightarrow> nat \<Rightarrow> nat \<Rightarrow> features" where
  "content_dict d status_code title_length html_length html url_length num_subdomains dest
       num_requests num_responses servers content_types num_unique_md5 total_len
       num_long_lines_files num_ascii_files =
    (let has_error = (dict_get d ''error_msg'' JNull \<noteq> JNull) in
     let has_html = py_bool (dict_get d ''html'' JNull) in
     let contains_loader_text =
           (\<exists>p \<in> set [''please wait'', ''loading'', ''redirect'']. py_in p html);
         contains_script_tag = py_in ''<script'' html;
         contains_iframe = py_in ''<iframe'' html;
         contains_form = py_in ''<form'' html;
         num_links = py_count html ''href='';
         num_scripts = py_count html ''<script'';
         destination = dict_get d ''destination'' (JStr [])
     in
     let uses_https = prefix ''https'' dest;
         contains_ip_in_url = search_ip dest;
         contains_encoded_chars =
           (CHR ''%'' \<in> set dest \<or> (\<exists>x \<in> set ''+-_''. x \<in> set dest));
         is_arweave_host = (py_in ''.ar-io.dev'' dest \<or> py_in ''arweave'' dest);
         har_entries = dict_get d ''har'' (JList []);
         responses = dict_get d ''responses'' (JList [])
     in
     let server_string = py_join '' '' servers;
         content_string = py_join '' '' content_types;
         num_js_files = length (filter (py_in ''javascript'') content_types);
         num_css_files = length (filter (py_in ''css'') content_types);
         num_html_files = length (filter (py_in ''html'') content_types)
     in
     let avg_file_size_class =
           py_truediv total_len (if num_responses \<noteq> 0 then num_responses else 1)
     in
     let is_suspicious_loader_page =
           (contains_loader_text \<and> 3 < num_js_files \<and> 100 < url_length);
         is_heavy_page = (10000 < html_length \<and> 5 < num_requests)
     in
     [(''status_code'', VInt status_code),
      (''has_error'', VInt (int_of_bool has_error)),
      (''title_length'', VInt (int title_length)),
      (''has_html'', VInt (int_of_bool has_html)),
      (''html_length'', VInt (int html_length)),
      (''contains_loader_text'', VInt (int_of_bool contains_loader_text)),
      (''contains_script_tag'', VInt (int_of_bool contains_script_tag)),
      (''contains_iframe'', VInt (int_of_bool contains_iframe)),
      (''contains_form'', VInt (int_of_bool contains_form)),
      (''num_links'', VInt (int num_links)),
      (''num_scripts'', VInt (int num_scripts)),
      (''url_length'', VInt (int url_length)),
      (''num_subdomains'', VInt (int num_subdomains)),
      (''uses_https'', VInt (int_of_bool uses_https)),
      (''contains_ip_in_url'', VInt (int_of_bool contains_ip_in_url)),
      (''contains_encoded_chars'', VInt (int_of_bool contains_encoded_chars)),
      (''is_arweave_host'', VInt (int_of_bool is_arweave_host)),
      (''num_requests'', VInt (int num_requests)),
      (''num_responses'', VInt (int num_responses)),
      (''has_cloudflare'', VInt (int_of_bool (py_in ''cloudflare'' server_string))),
      (''has_aws_cloudfront'', VInt (int_of_bool (py_in ''cloudfront'' server_string))),
      (''has_tencent_cos'', VInt (int_of_bool (py_in ''tencent-cos'' server_string))),
      (''num_js_files'', VInt (int num_js_files)),
      (''num_css_files'', VInt (int num_css_files)),
      (''num_html_files'', VInt (int num_html_files)),
      (''has_gzip_encoding'', VInt (int_of_bool (py_in ''gzip'' content_string))),
      (''has_csp_header'',
         VInt (int_of_bool (py_in ''content-security-policy'' content_string))),
      (''num_unique_md5'', VInt (int num_unique_md5)),
      (''avg_file_size_class'', VFloat avg_file_size_class),
      (''num_long_lines_files'', VInt (int num_long_lines_files)),
      (''num_ascii_files'', VInt (int num_ascii_files)),
      (''is_suspicious_loader_page'', VInt (int_of_bool is_suspicious_loader_page)),
      (''is_heavy_page'', VInt (int_of_bool is_heavy_page))])"

section \<open>Vocabulary of the statements\<close>

text \<open>The value of one feature in the outcome of an extractor call: \<open>None\<close> when the call
  raised or the key is absent.\<close>

definition feature :: "string \<Rightarrow> py_error + features \<Rightarrow> pyval option" where
  "feature k r = (case r of Inl e \<Rightarrow> None | Inr f \<Rightarrow> map_of f k)"

text \<open>The value of one key in the row that \<open>build_row\<close> made, if it made one.\<close>

definition row_value :: "string \<Rightarrow> row option \<Rightarrow> pyval option" where
  "row_value k r = (case r of None \<Rightarrow> None | Some row \<Rightarrow> map_of row k)"


text \<open>
  The header values of a HAR, stated without the loop and its accumulators: for every
  entry in order and every header of its response in order, the lower-cased value of the
  header when its lower-cased key is the given name. \<open>header_values ''server''\<close> is what the
  loop of \<open>extract_contentinfo_features\<close> is shown to collect in \<open>servers\<close>.
\<close>

definition header_value :: "string \<Rightarrow> json \<Rightarrow> string list" where
  "header_value name h =
     (case h of
        JDict kv \<Rightarrow>
          (case (dict_get kv ''key'' (JStr []), dict_get kv ''value'' (JStr [])) of
             (JStr k, JStr v) \<Rightarrow> if py_lower k = name then [py_lower v] else []
           | _ \<Rightarrow> [])
      | _ \<Rightarrow> [])"

definition entry_headers :: "json \<Rightarrow> json list" where
  "entry_headers entry =
     (case entry of
        JDict e \<Rightarrow>
          (case dict_get e ''response'' (JDict []) of
             JDict r \<Rightarrow>
               (case py_iter (dict_get r ''headers'' (JList [])) of Inr hs \<Rightarrow> hs | Inl err \<Rightarrow> [])
           | _ \<Rightarrow> [])
      | _ \<Rightarrow> [])"

definition header_values :: "string \<Rightarrow> json list \<Rightarrow> string list" where
  "header_values name entries =
     concat (map (\<lambda>entry. concat (map (header_value name) (entry_headers entry))) entries)"

text \<open>The types that the data model gives to the fields.\<close>

definition is_str :: "json \<Rightarrow> bool" where
  "is_str v = (case v of JStr s \<Rightarrow> True | _ \<Rightarrow> False)"

definition is_number :: "json \<Rightarrow> bool" where
  "is_number v = (case v of JInt i \<Rightarrow> True | JBool b \<Rightarrow> True | _ \<Rightarrow> False)"

definition is_list :: "json \<Rightarrow> bool" where
  "is_list v = (case v of JList xs \<Rightarrow> True | _ \<Rightarrow> False)"

text \<open>
  A record as \<open>extract_general_features\<close> expects it: a dictionary in which \<open>url\<close> and
  \<open>subdomain\<close> are strings or \<^verbatim>\<open>null\<close>, \<open>has_subdomain\<close> and \<open>content_status\<close> are
  integers or booleans and \<open>tech_info\<close> is a list, each where present; \<open>dns_status\<close> may
  be anything. The URL must be one that the parser accepts.
\<close>

definition general_well_typed :: "(string \<Rightarrow> py_error + parse_result) \<Rightarrow> json \<Rightarrow> bool" where
  "general_well_typed up data =
     (case data of
        JDict d \<Rightarrow>
          (case dict_get d ''url'' (JStr []) of
             JStr url \<Rightarrow> returns (up url)
           | JNull \<Rightarrow> returns (up [])
           | _ \<Rightarrow> False)
          \<and> (is_str (dict_get d ''subdomain'' (JStr [])) \<or> dict_get d ''subdomain'' (JStr []) = JNull)
          \<and> is_number (dict_get d ''has_subdomain'' (JBool False))
          \<and> is_number (dict_get d ''content_status'' (JInt 0))
          \<and> is_list (dict_get d ''tech_info'' (JList []))
      | _ \<Rightarrow> False)"

text \<open>
  A \<open>content_info\<close> as \<open>extract_contentinfo_features\<close> expects it: \<open>status_code\<close> an integer
  or boolean; \<open>title\<close> a string or \<^verbatim>\<open>null\<close>; \<open>html\<close> and \<open>destination\<close> strings; \<open>har\<close> a
  list of dictionaries whose \<open>response\<close> is a dictionary whose \<open>headers\<close> is a list of
  dictionaries with string \<open>key\<close> and \<open>value\<close>; \<open>responses\<close> a list of dictionaries whose
  \<open>md5\<close> is \<^verbatim>\<open>null\<close>, a string or a number and whose \<open>file_type\<close> is a string; each where
  present.
\<close>

definition header_ok :: "json \<Rightarrow> bool" where
  "header_ok h =
     (case h of
        JDict kv \<Rightarrow> is_str (dict_get kv ''key'' (JStr [])) \<and> is_str (dict_get kv ''value'' (JStr []))
      | _ \<Rightarrow> False)"

definition entry_ok :: "json \<Rightarrow> bool" where
  "entry_ok entry =
     (case entry of
        JDict e \<Rightarrow>
          (case dict_get e ''response'' (JDict []) of
             JDict r \<Rightarrow>
               (case dict_get r ''headers'' (JList []) of
                  JList hs \<Rightarrow> list_all header_ok hs
                | _ \<Rightarrow> False)
           | _ \<Rightarrow> False)
      | _ \<Rightarrow> False)"

definition response_ok :: "json \<Rightarrow> bool" where
  "response_ok r =
     (case r of
        JDict rd \<Rightarrow> hashable (dict_get rd ''md5'' JNull) \<and> is_str (dict_get rd ''file_type'' (JStr []))
      | _ \<Rightarrow> False)"

definition content_well_typed :: "json \<Rightarrow> bool" where
  "content_well_typed content_info =
     (case content_info of
        JDict d \<Rightarrow>
          is_number (dict_get d ''status_code'' (JInt 0))
          \<and> (is_str (dict_get d ''title'' JNull) \<or> dict_get d ''title'' JNull = JNull)
          \<and> is_str (dict_get d ''html'' (JStr []))
          \<and> is_str (dict_get d ''destination'' (JStr []))
          \<and> (case dict_get d ''har'' (JList []) of JList es \<Rightarrow> list_all entry_ok es | _ \<Rightarrow> False)
          \<and> (case dict_get d ''responses'' (JList []) of
                JList rs \<Rightarrow> list_all response_ok rs
              | _ \<Rightarrow> False)
      | _ \<Rightarrow> False)"

text \<open>
  An environment for the evaluated examples. The two extractors that are not among the
  three files return one made-up feature each. The file texts are stand-ins for JSON
  documents, and \<^verbatim>\<open>json.loads\<close> is the table that maps each to the record it stands for
  and fails on any other text. The benign folder holds a file whose \<open>content_info\<close> has
  \<open>html\<close> set to \<^verbatim>\<open>null\<close>; the malicious folder holds a well-formed file, a file that is
  not JSON, a file with another extension and a file that cannot be read.
\<close>

definition example_record_a :: json where
  "example_record_a =
     JDict [(''url'', JStr ''http://a.b/login''), (''content_status'', JInt 200),
            (''content_info'', JDict [(''html'', JNull)])]"

definition example_record_b :: json where
  "example_record_b =
     JDict [(''url'', JStr ''http://1.2.3.4/x?y=1''),
            (''content_info'', JDict [(''destination'', JStr ''https://c.d/e'')])]"

definition example_env :: env where
  "example_env =
     \<lparr>env_urlparse = urlparse,
      extract_hostinfo_features =
        (\<lambda>h. Inr [(''host_fields'', VInt (case py_len h of Inr n \<Rightarrow> int n | Inl e \<Rightarrow> 0))]),
      extract_additional_features =
        (\<lambda>a. Inr [(''additional_fields'', VInt (case py_len a of Inr n \<Rightarrow> int n | Inl e \<Rightarrow> 0))]),
      json_loads = map_of [(''text of a'', example_record_a), (''text of b'', example_record_b)],
      listdir = map_of
        [(BENIGN_PATH, [(''a.json'', Some '' text of a '')]),
         (MALICIOUS_PATH,
            [(''b.JSON'', Some ''text of b''), (''c.json'', Some ''not json''),
             (''d.txt'', Some ''text of b''), (''e.json'', None)])]\<rparr>"

section \<open>Properties\<close>

subsection \<open>Auxiliary facts\<close>

lemma py_bind_Inr_iff: "py_bind m f = Inr r \<longleftrightarrow> (\<exists>x. m = Inr x \<and> f x = Inr r)"
  by (cases m) (simp_all add: py_bind_def)

lemma py_bind_Inr [simp]: "py_bind (Inr x) f = f x"
  by (simp add: py_bind_def)

lemma py_bind_Inl [simp]: "py_bind (Inl e) f = Inl e"
  by (simp add: py_bind_def)

lemma returns_iff: "returns m \<longleftrightarrow> (\<exists>x. m = Inr x)"
  by (cases m) (simp_all add: returns_def)

lemma py_dict_Inr_iff: "py_dict v = Inr d \<longleftrightarrow> v = JDict d"
  by (simp add: py_dict_def split: json.splits)

lemma py_str_receiver_Inr_iff: "py_str_receiver v = Inr s \<longleftrightarrow> v = JStr s"
  by (simp add: py_str_receiver_def split: json.splits)

text \<open>Each extractor is its fallible calls in the order of the source, followed by the
  dictionary.\<close>

lemma general_chain:
  "extract_general_features up data =
     py_bind (py_dict data) (\<lambda>d.
     py_bind (py_str_receiver (py_or (dict_get d ''url'' (JStr [])) (JStr []))) (\<lambda>url.
     py_bind (up url) (\<lambda>parsed.
     py_bind (py_int (dict_get d ''has_subdomain'' (JBool False))) (\<lambda>has_subdomain.
     py_bind (py_len (py_or (dict_get d ''subdomain'' (JStr []))
                (JStr (str_or (pr_netloc parsed) [])))) (\<lambda>subdomain_length.
     py_bind (py_count_method (py_or (dict_get d ''subdomain'' (JStr []))
                (JStr (str_or (pr_netloc parsed) []))) ''.'') (\<lambda>num_subdomain_levels.
     py_bind (py_re_search (search_run 0) (py_or (dict_get d ''subdomain'' (JStr []))
                (JStr (str_or (pr_netloc parsed) [])))) (\<lambda>contains_random_subdomain.
     py_bind (py_int (dict_get d ''content_status'' (JInt 0))) (\<lambda>content_status.
     py_bind (py_len (dict_get d ''tech_info'' (JList []))) (\<lambda>tech_info_count.
     Inr (general_dict d url parsed has_subdomain subdomain_length num_subdomain_levels
            contains_random_subdomain content_status tech_info_count))))))))))"
  unfolding extract_general_features_def general_dict_def Let_def ..

lemma content_chain:
  "extract_contentinfo_features content_info =
     py_bind (py_dict content_info) (\<lambda>d.
     py_bind (py_int (dict_get d ''status_code'' (JInt 0))) (\<lambda>status_code.
     py_bind (if py_bool (dict_get d ''title'' JNull)
              then py_len (dict_get d ''title'' (JStr [])) else Inr 0) (\<lambda>title_length.
     py_bind (py_len (dict_get d ''html'' (JStr []))) (\<lambda>html_length.
     py_bind (py_lower_method (dict_get d ''html'' (JStr []))) (\<lambda>html.
     py_bind (py_len (dict_get d ''destination'' (JStr []))) (\<lambda>url_length.
     py_bind (py_count_method (dict_get d ''destination'' (JStr [])) ''.'') (\<lambda>num_subdomains.
     py_bind (py_str_receiver (dict_get d ''destination'' (JStr []))) (\<lambda>dest.
     py_bind (py_len (dict_get d ''har'' (JList []))) (\<lambda>num_requests.
     py_bind (py_len (dict_get d ''responses'' (JList []))) (\<lambda>num_responses.
     py_bind (py_iter (dict_get d ''har'' (JList []))) (\<lambda>entries.
     py_bind (py_for entry_step entries ([], [])) (\<lambda>(servers, content_types).
     py_bind (py_iter (dict_get d ''responses'' (JList []))) (\<lambda>rs.
     py_bind (py_for md5_step rs []) (\<lambda>md5_list.
     py_bind (py_set_size md5_list) (\<lambda>num_unique_md5.
     py_bind (py_for file_type_len_step rs 0) (\<lambda>total_len.
     py_bind (py_for (file_type_has_step ''long lines'') rs 0) (\<lambda>num_long_lines_files.
     py_bind (py_for (file_type_has_step ''ascii'') rs 0) (\<lambda>num_ascii_files.
     Inr (content_dict d status_code title_length html_length html url_length num_subdomains dest
            num_requests num_responses servers content_types num_unique_md5 total_len
            num_long_lines_files num_ascii_files)))))))))))))))))))"
  unfolding extract_contentinfo_features_def content_dict_def Let_def ..

text \<open>What a normal return of \<open>extract_general_features\<close> tells.\<close>

lemma general_inv:
  assumes "extract_general_features up data = Inr f"
  obtains d url parsed hs sl nl rnd cs tc where
    "data = JDict d"
    "py_or (dict_get d ''url'' (JStr [])) (JStr []) = JStr url"
    "up url = Inr parsed"
    "py_int (dict_get d ''content_status'' (JInt 0)) = Inr cs"
    "f = general_dict d url parsed hs sl nl rnd cs tc"
proof -
  from assms obtain d url parsed hs sl nl rnd cs tc where
    "py_dict data = Inr d"
    "py_str_receiver (py_or (dict_get d ''url'' (JStr [])) (JStr [])) = Inr url"
    "up url = Inr parsed"
    "py_int (dict_get d ''content_status'' (JInt 0)) = Inr cs"
    "f = general_dict d url parsed hs sl nl rnd cs tc"
    unfolding general_chain py_bind_Inr_iff by blast
  then show thesis
    using that by (simp add: py_dict_Inr_iff py_str_receiver_Inr_iff)
qed

lemma content_inv:
  assumes "extract_contentinfo_features ci = Inr f"
  obtains d sc tlen hlen html ulen nsub dest nreq nresp entries servers content_types nmd5 tot
    nll nascii
  where
    "ci = JDict d"
    "dict_get d ''destination'' (JStr []) = JStr dest"
    "py_iter (dict_get d ''har'' (JList [])) = Inr entries"
    "py_for entry_step entries ([], []) = Inr (servers, content_types)"
    "f = content_dict d sc tlen hlen html ulen nsub dest nreq nresp servers content_types nmd5 tot
           nll nascii"
proof -
  from assms obtain d sc tlen hlen html ulen nsub dest nreq nresp entries servers content_types
    nmd5 tot nll nascii
    where
      "py_dict ci = Inr d"
      "py_str_receiver (dict_get d ''destination'' (JStr [])) = Inr dest"
      "py_iter (dict_get d ''har'' (JList [])) = Inr entries"
      "py_for entry_step entries ([], []) = Inr (servers, content_types)"
      "f = content_dict d sc tlen hlen html ulen nsub dest nreq nresp servers content_types nmd5 tot
             nll nascii"
    unfolding content_chain by (auto simp: py_bind_Inr_iff)
  then show thesis
    using that by (simp add: py_dict_Inr_iff py_str_receiver_Inr_iff)
qed

lemma general_dict_keys: "map fst (general_dict d url parsed hs sl nl rnd cs tc) = general_keys"
  by (simp add: general_dict_def general_keys_def Let_def)

lemma content_dict_keys:
  "map fst (content_dict d sc tlen hlen html ulen nsub dest nreq nresp servers cts nmd5 tot nll nascii)
     = content_keys"
  by (simp add: content_dict_def content_keys_def Let_def)

lemma general_keys_of_result:
  "extract_general_features up data = Inr f \<Longrightarrow> map fst f = general_keys"
  by (erule general_inv) (simp add: general_dict_keys)

lemma content_keys_of_result:
  "extract_contentinfo_features ci = Inr f \<Longrightarrow> map fst f = content_keys"
  by (erule content_inv) (simp add: content_dict_keys)

lemma general_dict_status:
  "map_of (general_dict d url parsed hs sl nl rnd cs tc) ''content_status'' = Some (VInt cs)"
  "map_of (general_dict d url parsed hs sl nl rnd cs tc) ''is_http_ok''
     = Some (VInt (int_of_bool (200 \<le> cs \<and> cs < 300)))"
  "map_of (general_dict d url parsed hs sl nl rnd cs tc) ''is_http_redirect''
     = Some (VInt (int_of_bool (300 \<le> cs \<and> cs < 400)))"
  "map_of (general_dict d url parsed hs sl nl rnd cs tc) ''is_http_client_error''
     = Some (VInt (int_of_bool (400 \<le> cs \<and> cs < 500)))"
  "map_of (general_dict d url parsed hs sl nl rnd cs tc) ''is_http_server_error''
     = Some (VInt (int_of_bool (500 \<le> cs \<and> cs < 600)))"
  by (simp_all add: general_dict_def Let_def)

lemma general_dict_url:
  "map_of (general_dict d url parsed hs sl nl rnd cs tc) ''url_length''
     = Some (VInt (int (length url)))"
  "map_of (general_dict d url parsed hs sl nl rnd cs tc) ''num_digits_in_url''
     = Some (VInt (int (length (filter is_digit url))))"
  "map_of (general_dict d url parsed hs sl nl rnd cs tc) ''num_special_chars''
     = Some (VInt (int (length (filter (\<lambda>c. \<not> is_alnum c) url))))"
  "map_of (general_dict d url parsed hs sl nl rnd cs tc) ''digit_ratio''
     = Some (VFloat (py_round3 (py_truediv (length (filter is_digit url)) (length url + 1))))"
  "map_of (general_dict d url parsed hs sl nl rnd cs tc) ''special_char_ratio''
     = Some (VFloat (py_round3 (py_truediv (length (filter (\<lambda>c. \<not> is_alnum c) url))
          (length url + 1))))"
  "map_of (general_dict d url parsed hs sl nl rnd cs tc) ''contains_encoded_chars''
     = Some (VInt (int_of_bool (CHR ''%'' \<in> set url \<or> (\<exists>c \<in> set ''+-_=''. c \<in> set url))))"
  by (simp_all add: general_dict_def Let_def)

lemma content_dict_dest:
  "map_of (content_dict d sc tlen hlen html ulen nsub dest nreq nresp servers cts nmd5 tot nll nascii)
     ''contains_encoded_chars''
     = Some (VInt (int_of_bool (CHR ''%'' \<in> set dest \<or> (\<exists>x \<in> set ''+-_''. x \<in> set dest))))"
  "map_of (content_dict d sc tlen hlen html ulen nsub dest nreq nresp servers cts nmd5 tot nll nascii)
     ''has_cloudflare''
     = Some (VInt (int_of_bool (py_in ''cloudflare'' (py_join '' '' servers))))"
  by (simp_all add: content_dict_def Let_def)

lemma round_half_even_bounds:
  assumes "0 \<le> x" and "x \<le> of_int n"
  shows "0 \<le> round_half_even x \<and> round_half_even x \<le> n"
proof -
  have lo: "0 \<le> \<lfloor>x\<rfloor>"
    using assms(1) by simp
  have hi: "\<lfloor>x\<rfloor> \<le> n"
    using assms(2) by (simp add: floor_le_iff)
  show ?thesis
  proof (cases "\<lfloor>x\<rfloor> = n")
    case True
    with assms(2) have "x = of_int \<lfloor>x\<rfloor>"
      using of_int_floor_le [of x] by simp
    then have "x - of_int \<lfloor>x\<rfloor> = 0"
      by simp
    then show ?thesis
      using lo True by (simp add: round_half_even_def Let_def)
  next
    case False
    with hi have "\<lfloor>x\<rfloor> + 1 \<le> n"
      by simp
    with lo show ?thesis
      by (simp add: round_half_even_def Let_def)
  qed
qed

lemma round_half_even_error: "\<bar>of_int (round_half_even y) - y\<bar> \<le> 1 / 2"
proof -
  have "of_int \<lfloor>y\<rfloor> \<le> y" "y < of_int \<lfloor>y\<rfloor> + 1"
    by linarith+
  then show ?thesis
    by (auto simp: round_half_even_def Let_def abs_le_iff)
qed

lemma pow2_powi: "pow2 i = 2 powi i"
  by (simp add: pow2_def power_int_def field_simps)

lemma pow2_pos: "0 < pow2 i"
  by (simp add: pow2_powi zero_less_power_int)

lemma pow2_add: "pow2 (i + j) = pow2 i * pow2 j"
  by (simp add: pow2_powi power_int_add)

lemma pow2_diff: "pow2 (i - j) = pow2 i / pow2 j"
  by (simp add: pow2_powi power_int_diff)

lemma pow2_nat: "pow2 (int n) = 2 ^ n"
  by (simp add: pow2_def)

lemma pow2_mono: "i \<le> j \<Longrightarrow> pow2 i \<le> pow2 j"
  by (simp add: pow2_powi power_int_increasing)

lemma pow2_strict_mono: "i < j \<Longrightarrow> pow2 i < pow2 j"
  by (simp add: pow2_powi power_int_strict_increasing)

lemma pow2_le_iff: "pow2 i \<le> pow2 j \<longleftrightarrow> i \<le> j"
  using pow2_mono [of i j] pow2_strict_mono [of j i] by (auto simp: not_le [symmetric])

lemma bit_length_bounds:
  "0 < k \<Longrightarrow> 2 ^ (bit_length k - 1) \<le> k \<and> k < 2 ^ bit_length k"
proof (induction k rule: bit_length.induct)
  case (1 k)
  show ?case
  proof (cases "k div 2 \<le> 0")
    case True
    with 1 have "k = 1"
      by presburger
    then show ?thesis
      by (simp add: bit_length.simps [of 1] bit_length.simps [of 0])
  next
    case False
    then have pos: "0 < k div 2"
      by simp
    from 1 pos have ih: "2 ^ (bit_length (k div 2) - 1) \<le> k div 2 \<and> k div 2 < 2 ^ bit_length (k div 2)"
      by simp
    have bl: "bit_length k = Suc (bit_length (k div 2))"
      using 1 by (simp add: bit_length.simps [of k])
    have "0 < bit_length (k div 2)"
      using pos by (simp add: bit_length.simps [of "k div 2"])
    then obtain m where m: "bit_length (k div 2) = Suc m"
      by (cases "bit_length (k div 2)") simp_all
    define p :: int where "p = 2 ^ m"
    from ih m have "p \<le> k div 2" "k div 2 < 2 * p"
      by (simp_all add: p_def)
    then have "2 * p \<le> k" "k < 2 * (2 * p)"
      by presburger+
    then show ?thesis
      by (simp add: bl m p_def)
  qed
qed

lemma bit_length_pow2:
  assumes "0 < k"
  shows "pow2 (int (bit_length k) - 1) \<le> of_int k \<and> of_int k < pow2 (int (bit_length k))"
proof -
  from assms have "0 < bit_length k"
    by (simp add: bit_length.simps [of k])
  then obtain m where m: "bit_length k = Suc m"
    by (cases "bit_length k") simp_all
  from bit_length_bounds [OF assms] have "2 ^ m \<le> k" "k < 2 ^ Suc m"
    by (simp_all add: m)
  then have "(of_int (2 ^ m) :: rat) \<le> of_int k" "(of_int k :: rat) < of_int (2 ^ Suc m)"
    by (simp_all only: of_int_le_iff of_int_less_iff)
  moreover have "int (Suc m) - 1 = int m"
    by simp
  then have "pow2 (int (Suc m) - 1) = 2 ^ m"
    by (simp only: pow2_nat)
  moreover have "pow2 (int (Suc m)) = 2 ^ Suc m"
    by (simp only: pow2_nat)
  ultimately show ?thesis
    by (simp add: m)
qed

lemma binary_exponent_bounds:
  assumes "0 < a" and "0 < b"
  shows "pow2 (binary_exponent a b) \<le> of_int a / of_int b
       \<and> of_int a / of_int b < pow2 (binary_exponent a b + 1)"
proof -
  define k where "k = int (bit_length a) - int (bit_length b)"
  define q :: rat where "q = of_int a / of_int b"
  have bpos: "(0::rat) < of_int b"
    using assms(2) by simp
  from bit_length_pow2 [OF assms(1)] have a: "pow2 (int (bit_length a) - 1) \<le> of_int a"
    "of_int a < pow2 (int (bit_length a))"
    by simp_all
  from bit_length_pow2 [OF assms(2)] have b: "pow2 (int (bit_length b) - 1) \<le> of_int b"
    "of_int b < pow2 (int (bit_length b))"
    by simp_all
  have "q * of_int b < pow2 (k + 1) * pow2 (int (bit_length b) - 1)"
    using a(2) bpos by (simp add: q_def k_def pow2_add [symmetric])
  also have "\<dots> \<le> pow2 (k + 1) * of_int b"
    using b(1) pow2_pos [of "k + 1"] by simp
  finally have hi: "q < pow2 (k + 1)"
    using bpos by simp
  have "pow2 (k - 1) * of_int b < pow2 (k - 1) * pow2 (int (bit_length b))"
    using b(2) pow2_pos [of "k - 1"] by simp
  also have "\<dots> = pow2 (int (bit_length a) - 1)"
    by (simp add: k_def pow2_add [symmetric])
  also have "\<dots> \<le> q * of_int b"
    using a(1) bpos by (simp add: q_def)
  finally have lo: "pow2 (k - 1) < q"
    using bpos by simp
  show ?thesis
    using hi lo unfolding binary_exponent_def Let_def k_def [symmetric] q_def [symmetric]
    by auto
qed

lemma nearest_double_error:
  assumes "0 < a" and "0 < b"
  shows "\<bar>nearest_double a b - of_int a / of_int b\<bar> \<le> (of_int a / of_int b) / 2 ^ 53"
proof -
  define q :: rat where "q = of_int a / of_int b"
  define e where "e = binary_exponent a b"
  define ulp where "ulp = pow2 (e - 52)"
  have ulp: "0 < ulp"
    by (simp add: ulp_def pow2_pos)
  have nd: "nearest_double a b = of_int (round_half_even (q / ulp)) * ulp"
    using assms(1) by (simp add: nearest_double_def Let_def q_def ulp_def e_def)
  have "\<bar>of_int (round_half_even (q / ulp)) - q / ulp\<bar> \<le> 1 / 2"
    by (rule round_half_even_error)
  then have "\<bar>of_int (round_half_even (q / ulp)) - q / ulp\<bar> * ulp \<le> 1 / 2 * ulp"
    using ulp by (simp only: mult_le_cancel_right_pos)
  moreover have "\<bar>of_int (round_half_even (q / ulp)) - q / ulp\<bar> * ulp
       = \<bar>of_int (round_half_even (q / ulp)) * ulp - q\<bar>"
    using ulp by (simp add: abs_mult_pos left_diff_distrib)
  ultimately have err: "\<bar>nearest_double a b - q\<bar> \<le> ulp / 2"
    by (simp add: nd)
  have "pow2 e \<le> q"
    using binary_exponent_bounds [OF assms] by (simp add: e_def q_def)
  moreover have "pow2 52 = 2 ^ 52"
    by (simp add: pow2_def)
  then have "ulp = pow2 e / 2 ^ 52"
    by (simp only: ulp_def pow2_diff)
  ultimately have "ulp / 2 \<le> q / 2 ^ 53"
    by (simp add: field_simps)
  with err show ?thesis
    by (simp add: q_def)
qed

lemma nearest_double_unit:
  assumes "0 \<le> a" and "a \<le> b" and "0 < b"
  shows "0 \<le> nearest_double a b \<and> nearest_double a b \<le> 1"
proof (cases "a = 0")
  case True
  then show ?thesis
    by (simp add: nearest_double_def)
next
  case False
  with assms(1) have apos: "0 < a"
    by simp
  define q :: rat where "q = of_int a / of_int b"
  define e where "e = binary_exponent a b"
  define ulp where "ulp = pow2 (e - 52)"
  have q: "0 \<le> q" "q \<le> 1"
    using assms by (simp_all add: q_def)
  have nd: "nearest_double a b = of_int (round_half_even (q / ulp)) * ulp"
    using apos by (simp add: nearest_double_def Let_def q_def ulp_def e_def)
  have "pow2 e \<le> q"
    using binary_exponent_bounds [OF apos assms(3)] by (simp add: e_def q_def)
  with q(2) have "pow2 e \<le> pow2 0"
    by (simp add: pow2_def)
  then have e: "e \<le> 0"
    by (simp only: pow2_le_iff)
  define n where "n = nat (52 - e)"
  have ulp: "ulp = 1 / 2 ^ n"
    using e by (simp add: ulp_def n_def pow2_def)
  have "0 \<le> q / ulp" "q / ulp \<le> of_int (2 ^ n)"
    using q by (simp_all add: ulp mult_left_le_one_le)
  then have "0 \<le> round_half_even (q / ulp) \<and> round_half_even (q / ulp) \<le> 2 ^ n"
    by (rule round_half_even_bounds)
  then have "(0::rat) \<le> of_int (round_half_even (q / ulp))"
    "(of_int (round_half_even (q / ulp)) :: rat) \<le> of_int (2 ^ n)"
    by (simp_all only: of_int_le_iff of_int_0_le_iff)
  then show ?thesis
    by (simp add: nd ulp field_simps)
qed

lemma py_round3_unit:
  assumes "0 \<le> x" and "x \<le> 1"
  shows "0 \<le> py_round3 x \<and> py_round3 x \<le> 1"
proof -
  have "0 \<le> x * 1000" and "x * 1000 \<le> of_int 1000"
    using assms by simp_all
  then have "0 \<le> round_half_even (x * 1000) \<and> round_half_even (x * 1000) \<le> 1000"
    by (rule round_half_even_bounds)
  then show ?thesis
    unfolding py_round3_def by (intro nearest_double_unit) simp_all
qed

lemma py_truediv_unit:
  assumes "n \<le> len"
  shows "0 \<le> py_truediv n (len + 1) \<and> py_truediv n (len + 1) \<le> 1"
  unfolding py_truediv_def using assms by (intro nearest_double_unit) simp_all


lemma nearest_double_error_unit:
  assumes "0 \<le> a" and "a \<le> b" and "0 < b"
  shows "\<bar>nearest_double a b - of_int a / of_int b\<bar> \<le> 1 / 2 ^ 53"
proof (cases "a = 0")
  case True
  then show ?thesis
    by (simp add: nearest_double_def)
next
  case False
  with assms(1) have "0 < a"
    by simp
  then have "\<bar>nearest_double a b - of_int a / of_int b\<bar> \<le> (of_int a / of_int b) / 2 ^ 53"
    using assms(3) by (rule nearest_double_error)
  moreover have "(of_int a / of_int b :: rat) \<le> 1"
    using assms by simp
  then have "(of_int a / of_int b :: rat) / 2 ^ 53 \<le> 1 / 2 ^ 53"
    by (simp only: divide_right_mono zero_le_power zero_le_numeral)
  ultimately show ?thesis
    by (rule order_trans)
qed

lemma py_round3_error:
  assumes "0 \<le> x" and "x \<le> 1"
  shows "\<bar>py_round3 x - x\<bar> \<le> 1 / 2000 + 1 / 2 ^ 53"
proof -
  define k where "k = round_half_even (x * 1000)"
  have "0 \<le> x * 1000" and "x * 1000 \<le> of_int 1000"
    using assms by simp_all
  then have k: "0 \<le> k \<and> k \<le> 1000"
    unfolding k_def by (rule round_half_even_bounds)
  have "\<bar>of_int k - x * 1000\<bar> \<le> 1 / 2"
    unfolding k_def by (rule round_half_even_error)
  then have a: "\<bar>of_int k / 1000 - x\<bar> \<le> 1 / 2000"
    by (simp add: abs_le_iff field_simps)
  from k have "\<bar>nearest_double k 1000 - of_int k / of_int 1000\<bar> \<le> 1 / 2 ^ 53"
    by (intro nearest_double_error_unit) simp_all
  then have b: "\<bar>py_round3 x - of_int k / 1000\<bar> \<le> 1 / 2 ^ 53"
    by (simp add: py_round3_def k_def)
  have "\<bar>py_round3 x - x\<bar> \<le> \<bar>py_round3 x - of_int k / 1000\<bar> + \<bar>of_int k / 1000 - x\<bar>"
    by linarith
  with a b show ?thesis
    by linarith
qed

lemma ratio_accuracy:
  assumes "n \<le> len"
  shows "\<bar>py_round3 (py_truediv n (len + 1)) - of_nat n / of_nat (len + 1)\<bar>
           \<le> 1 / 2000 + 1 / 2 ^ 52"
proof -
  define x where "x = py_truediv n (len + 1)"
  have x: "0 \<le> x \<and> x \<le> 1"
    unfolding x_def using assms by (rule py_truediv_unit)
  then have a: "\<bar>py_round3 x - x\<bar> \<le> 1 / 2000 + 1 / 2 ^ 53"
    by (simp only: py_round3_error)
  have "\<bar>nearest_double (int n) (int (len + 1)) - of_int (int n) / of_int (int (len + 1))\<bar>
          \<le> 1 / 2 ^ 53"
    using assms by (intro nearest_double_error_unit) simp_all
  then have b: "\<bar>x - of_nat n / of_nat (len + 1)\<bar> \<le> 1 / 2 ^ 53"
    by (simp only: x_def py_truediv_def of_int_of_nat_eq)
  have "\<bar>py_round3 x - of_nat n / of_nat (len + 1)\<bar>
          \<le> \<bar>py_round3 x - x\<bar> + \<bar>x - of_nat n / of_nat (len + 1)\<bar>"
    by linarith
  with a b have "\<bar>py_round3 x - of_nat n / of_nat (len + 1)\<bar> \<le> 1 / 2000 + 1 / 2 ^ 53 + 1 / 2 ^ 53"
    by linarith
  then show ?thesis
    by (simp add: x_def)
qed

text \<open>Equations for evaluating the floats: the rounding of a fraction is computed with
  integer division, and \<^verbatim>\<open>round\<close> reads its argument once.\<close>

lemma pow2_code [code]:
  "pow2 i = (if 0 \<le> i then of_int (2 ^ nat i) else 1 / of_int (2 ^ nat (- i)))"
  by (simp add: pow2_def)

lemma round_half_even_code [code]:
  "round_half_even x =
     (case quotient_of x of (a, b) \<Rightarrow>
        let f = a div b; r = 2 * (a mod b)
        in if r < b then f else if b < r then f + 1 else if even f then f else f + 1)"
proof (cases "quotient_of x")
  case (Pair a b)
  then have x: "x = of_int a / of_int b" and b: "0 < b"
    by (simp_all add: quotient_of_div quotient_of_denom_pos)
  have fl: "\<lfloor>x\<rfloor> = a div b"
    unfolding x by (simp add: floor_divide_of_int_eq)
  have "(of_int a :: rat) = of_int (a div b) * of_int b + of_int (a mod b)"
    by (simp only: of_int_mult [symmetric] of_int_add [symmetric] div_mult_mod_eq)
  then have r: "x - of_int (a div b) = of_int (a mod b) / of_int b"
    unfolding x using b by (simp add: field_simps)
  have "of_int (a mod b) / of_int b < (1::rat) / 2 \<longleftrightarrow> (of_int (2 * (a mod b)) :: rat) < of_int b"
    using b by (simp add: field_simps)
  then have lt: "of_int (a mod b) / of_int b < (1::rat) / 2 \<longleftrightarrow> 2 * (a mod b) < b"
    by (simp only: of_int_less_iff)
  have "(1::rat) / 2 < of_int (a mod b) / of_int b \<longleftrightarrow> (of_int b :: rat) < of_int (2 * (a mod b))"
    using b by (simp add: field_simps)
  then have gt: "(1::rat) / 2 < of_int (a mod b) / of_int b \<longleftrightarrow> b < 2 * (a mod b)"
    by (simp only: of_int_less_iff)
  have "round_half_even x =
          (if 2 * (a mod b) < b then a div b
           else if b < 2 * (a mod b) then a div b + 1
           else if even (a div b) then a div b else a div b + 1)"
    unfolding round_half_even_def Let_def fl r lt gt ..
  then show ?thesis
    by (simp only: Pair prod.case Let_def)
qed

lemma py_round3_code [code]:
  "py_round3 x = (case quotient_of x of (a, b) \<Rightarrow>
      nearest_double (round_half_even (of_int (a * 1000) / of_int b)) 1000)"
proof (cases "quotient_of x")
  case (Pair a b)
  then have "x = of_int a / of_int b"
    by (rule quotient_of_div)
  with Pair show ?thesis
    by (simp add: py_round3_def)
qed

subsection \<open>The default vectors\<close>

text \<open>
  Claim C5. On the empty dictionary each extractor returns normally, and the result holds
  exactly the extractor's keys, every value being 0 (0.0 for the two ratios and for the
  average). The key list is the same on every input on which the extractor returns,
  whatever the parser.
\<close>

theorem C5_default_vector:
  "extract_general_features urlparse (JDict []) = Inr general_default
   \<and> extract_contentinfo_features (JDict []) = Inr content_default
   \<and> (\<forall>up data f. extract_general_features up data = Inr f \<longrightarrow> map fst f = map fst general_default)
   \<and> (\<forall>ci f. extract_contentinfo_features ci = Inr f \<longrightarrow> map fst f = map fst content_default)"
proof (intro conjI allI impI)
  show "extract_general_features urlparse (JDict []) = Inr general_default"
    by code_simp
  show "extract_contentinfo_features (JDict []) = Inr content_default"
    by code_simp
next
  fix up data f
  assume "extract_general_features up data = Inr f"
  then have "map fst f = general_keys"
    by (rule general_keys_of_result)
  then show "map fst f = map fst general_default"
    by (simp add: general_default_def comp_def)
next
  fix ci f
  assume "extract_contentinfo_features ci = Inr f"
  then have "map fst f = content_keys"
    by (rule content_keys_of_result)
  then show "map fst f = map fst content_default"
    by (simp add: content_default_def comp_def)
qed

theorem C5_default_vector_witness:
  "(\<exists>f. extract_general_features urlparse
          (JDict [(''url'', JStr ''http://a.b/c?x=1''), (''content_status'', JInt 200)]) = Inr f
        \<and> map fst f = map fst general_default)
   \<and> (\<exists>f. extract_contentinfo_features (JDict [(''title'', JStr ''Sign in'')]) = Inr f
        \<and> map fst f = map fst content_default)"
proof -
  have "returns (extract_general_features urlparse
          (JDict [(''url'', JStr ''http://a.b/c?x=1''), (''content_status'', JInt 200)]))"
    by code_simp
  then obtain g where g: "extract_general_features urlparse
          (JDict [(''url'', JStr ''http://a.b/c?x=1''), (''content_status'', JInt 200)]) = Inr g"
    unfolding returns_iff ..
  have "returns (extract_contentinfo_features (JDict [(''title'', JStr ''Sign in'')]))"
    by code_simp
  then obtain c where c: "extract_contentinfo_features (JDict [(''title'', JStr ''Sign in'')]) = Inr c"
    unfolding returns_iff ..
  from C5_default_vector g have "map fst g = map fst general_default"
    by blast
  moreover from C5_default_vector c have "map fst c = map fst content_default"
    by blast
  ultimately show ?thesis
    using g c by blast
qed

subsection \<open>HTTP status buckets\<close>

text \<open>
  Claim C6. Whenever \<open>extract_general_features\<close> returns, the feature \<open>content_status\<close> is
  the integer that \<^verbatim>\<open>int()\<close> made of the field, and each of the four bucket features is 0
  or 1. They add up to 1 when the status lies in [200, 600), and all are 0 otherwise; a
  status of 404 sets \<open>is_http_client_error\<close> and none of the other three.
\<close>

theorem C6_http_status_buckets:
  assumes "extract_general_features up data = Inr f"
  shows "\<exists>d cs ok rd ce se.
           data = JDict d
         \<and> py_int (dict_get d ''content_status'' (JInt 0)) = Inr cs
         \<and> map_of f ''content_status'' = Some (VInt cs)
         \<and> map_of f ''is_http_ok'' = Some (VInt ok)
         \<and> map_of f ''is_http_redirect'' = Some (VInt rd)
         \<and> map_of f ''is_http_client_error'' = Some (VInt ce)
         \<and> map_of f ''is_http_server_error'' = Some (VInt se)
         \<and> ok \<in> {0, 1} \<and> rd \<in> {0, 1} \<and> ce \<in> {0, 1} \<and> se \<in> {0, 1}
         \<and> (if 200 \<le> cs \<and> cs < 600 then ok + rd + ce + se = 1
             else ok = 0 \<and> rd = 0 \<and> ce = 0 \<and> se = 0)
         \<and> (cs = 404 \<longrightarrow> ok = 0 \<and> rd = 0 \<and> ce = 1 \<and> se = 0)"
proof -
  from assms obtain d url parsed hs sl nl rnd cs tc where
    data: "data = JDict d"
    and cs: "py_int (dict_get d ''content_status'' (JInt 0)) = Inr cs"
    and f: "f = general_dict d url parsed hs sl nl rnd cs tc"
    by (rule general_inv)
  let ?ok = "int_of_bool (200 \<le> cs \<and> cs < 300)"
  let ?rd = "int_of_bool (300 \<le> cs \<and> cs < 400)"
  let ?ce = "int_of_bool (400 \<le> cs \<and> cs < 500)"
  let ?se = "int_of_bool (500 \<le> cs \<and> cs < 600)"
  have look: "map_of f ''content_status'' = Some (VInt cs)"
    "map_of f ''is_http_ok'' = Some (VInt ?ok)"
    "map_of f ''is_http_redirect'' = Some (VInt ?rd)"
    "map_of f ''is_http_client_error'' = Some (VInt ?ce)"
    "map_of f ''is_http_server_error'' = Some (VInt ?se)"
    unfolding f by (rule general_dict_status)+
  have range: "?ok \<in> {0, 1}" "?rd \<in> {0, 1}" "?ce \<in> {0, 1}" "?se \<in> {0, 1}"
    by (simp_all add: int_of_bool_def)
  have one: "if 200 \<le> cs \<and> cs < 600 then ?ok + ?rd + ?ce + ?se = 1
             else ?ok = 0 \<and> ?rd = 0 \<and> ?ce = 0 \<and> ?se = 0"
    by (simp add: int_of_bool_def)
  have ex: "cs = 404 \<longrightarrow> ?ok = 0 \<and> ?rd = 0 \<and> ?ce = 1 \<and> ?se = 0"
    by (simp add: int_of_bool_def)
  from data cs look range one ex show ?thesis
    by blast
qed

theorem C6_http_status_buckets_witness:
  "\<exists>f. extract_general_features urlparse (JDict [(''content_status'', JInt 404)]) = Inr f
     \<and> map_of f ''content_status'' = Some (VInt 404)
     \<and> map_of f ''is_http_ok'' = Some (VInt 0)
     \<and> map_of f ''is_http_redirect'' = Some (VInt 0)
     \<and> map_of f ''is_http_client_error'' = Some (VInt 1)
     \<and> map_of f ''is_http_server_error'' = Some (VInt 0)"
proof -
  have "returns (extract_general_features urlparse (JDict [(''content_status'', JInt 404)]))"
    by code_simp
  then obtain f where
    f: "extract_general_features urlparse (JDict [(''content_status'', JInt 404)]) = Inr f"
    unfolding returns_iff ..
  from C6_http_status_buckets [OF f] obtain d cs ok rd ce se where
    "JDict [(''content_status'', JInt 404)] = JDict d"
    "py_int (dict_get d ''content_status'' (JInt 0)) = Inr cs"
    "map_of f ''content_status'' = Some (VInt cs)"
    "map_of f ''is_http_ok'' = Some (VInt ok)"
    "map_of f ''is_http_redirect'' = Some (VInt rd)"
    "map_of f ''is_http_client_error'' = Some (VInt ce)"
    "map_of f ''is_http_server_error'' = Some (VInt se)"
    "cs = 404 \<longrightarrow> ok = 0 \<and> rd = 0 \<and> ce = 1 \<and> se = 0"
    by blast
  moreover from this have "cs = 404"
    by (auto simp: dict_get_def)
  ultimately show ?thesis
    using f by auto
qed

subsection \<open>Ratio features\<close>

text \<open>
  Claim C7. Whenever \<open>extract_general_features\<close> returns, the record is a dictionary whose
  \<open>url\<close> is read as a string; \<open>num_digits_in_url\<close>, \<open>num_special_chars\<close> and \<open>url_length\<close>
  are the counts of its digits, of its non-alphanumeric characters and of all its
  characters; \<open>digit_ratio\<close> is \<^verbatim>\<open>round(num_digits_in_url / (url_length + 1), 3)\<close> and
  \<open>special_char_ratio\<close> is \<^verbatim>\<open>round(num_special_chars / (url_length + 1), 3)\<close>, the division
  and the rounding being those of Python on doubles. The denominator is positive, both
  ratios lie in [0, 1], and each differs from the exact quotient by at most half a
  thousandth and two roundings to a double.
\<close>

theorem C7_ratio_features:
  assumes "extract_general_features up data = Inr f"
  shows "\<exists>d url digits special len r1 r2.
           data = JDict d
         \<and> py_or (dict_get d ''url'' (JStr [])) (JStr []) = JStr url
         \<and> digits = length (filter is_digit url)
         \<and> special = length (filter (\<lambda>c. \<not> is_alnum c) url)
         \<and> len = length url
         \<and> map_of f ''num_digits_in_url'' = Some (VInt (int digits))
         \<and> map_of f ''num_special_chars'' = Some (VInt (int special))
         \<and> map_of f ''url_length'' = Some (VInt (int len))
         \<and> map_of f ''digit_ratio'' = Some (VFloat r1)
         \<and> map_of f ''special_char_ratio'' = Some (VFloat r2)
         \<and> r1 = py_round3 (py_truediv digits (len + 1))
         \<and> r2 = py_round3 (py_truediv special (len + 1))
         \<and> (0::rat) < of_nat (len + 1)
         \<and> 0 \<le> r1 \<and> r1 \<le> 1 \<and> 0 \<le> r2 \<and> r2 \<le> 1
         \<and> \<bar>r1 - of_nat digits / of_nat (len + 1)\<bar> \<le> 1 / 2000 + 1 / 2 ^ 52
         \<and> \<bar>r2 - of_nat special / of_nat (len + 1)\<bar> \<le> 1 / 2000 + 1 / 2 ^ 52"
proof -
  from assms obtain d url parsed hs sl nl rnd cs tc where
    data: "data = JDict d"
    and url: "py_or (dict_get d ''url'' (JStr [])) (JStr []) = JStr url"
    and f: "f = general_dict d url parsed hs sl nl rnd cs tc"
    by (rule general_inv)
  let ?digits = "length (filter is_digit url)"
  let ?special = "length (filter (\<lambda>c. \<not> is_alnum c) url)"
  let ?len = "length url"
  have look: "map_of f ''num_digits_in_url'' = Some (VInt (int ?digits))"
    "map_of f ''num_special_chars'' = Some (VInt (int ?special))"
    "map_of f ''url_length'' = Some (VInt (int ?len))"
    "map_of f ''digit_ratio'' = Some (VFloat (py_round3 (py_truediv ?digits (?len + 1))))"
    "map_of f ''special_char_ratio'' = Some (VFloat (py_round3 (py_truediv ?special (?len + 1))))"
    unfolding f by (rule general_dict_url)+
  have digits: "?digits \<le> ?len"
    by simp
  then have "0 \<le> py_truediv ?digits (?len + 1) \<and> py_truediv ?digits (?len + 1) \<le> 1"
    by (rule py_truediv_unit)
  then have b1: "0 \<le> py_round3 (py_truediv ?digits (?len + 1))
               \<and> py_round3 (py_truediv ?digits (?len + 1)) \<le> 1"
    by (simp only: py_round3_unit)
  have special: "?special \<le> ?len"
    by simp
  then have "0 \<le> py_truediv ?special (?len + 1) \<and> py_truediv ?special (?len + 1) \<le> 1"
    by (rule py_truediv_unit)
  then have b2: "0 \<le> py_round3 (py_truediv ?special (?len + 1))
               \<and> py_round3 (py_truediv ?special (?len + 1)) \<le> 1"
    by (simp only: py_round3_unit)
  have pos: "(0::rat) < of_nat (?len + 1)"
    by (simp del: of_nat_add of_nat_Suc)
  from digits have a1: "\<bar>py_round3 (py_truediv ?digits (?len + 1)) - of_nat ?digits / of_nat (?len + 1)\<bar>
      \<le> 1 / 2000 + 1 / 2 ^ 52"
    by (rule ratio_accuracy)
  from special have a2: "\<bar>py_round3 (py_truediv ?special (?len + 1)) - of_nat ?special / of_nat (?len + 1)\<bar>
      \<le> 1 / 2000 + 1 / 2 ^ 52"
    by (rule ratio_accuracy)
  from data url look b1 b2 pos a1 a2 show ?thesis
    by blast
qed

theorem C7_ratio_features_witness:
  "\<exists>f r1 r2.
       extract_general_features urlparse
         (JDict [(''url'', JStr ''http://a.b/xxxxxxxxxxxxxxxxxxxxxxxxxxxxxxxxxxxxxxxxxxxxxxxxxxxxxxxxxxxxxxxxxxx1'')]) = Inr f
     \<and> map_of f ''url_length'' = Some (VInt 79)
     \<and> map_of f ''num_digits_in_url'' = Some (VInt 1)
     \<and> map_of f ''digit_ratio'' = Some (VFloat r1)
     \<and> r1 = 7493989779944505 / 576460752303423488
     \<and> map_of f ''special_char_ratio'' = Some (VFloat r2)
     \<and> 0 \<le> r2 \<and> r2 \<le> 1"
proof -
  let ?u = "''http://a.b/xxxxxxxxxxxxxxxxxxxxxxxxxxxxxxxxxxxxxxxxxxxxxxxxxxxxxxxxxxxxxxxxxxx1''"
  have "returns (extract_general_features urlparse (JDict [(''url'', JStr ?u)]))"
    by code_simp
  then obtain f where f: "extract_general_features urlparse (JDict [(''url'', JStr ?u)]) = Inr f"
    unfolding returns_iff ..
  from C7_ratio_features [OF f] obtain d url r1 r2 where
    d: "JDict [(''url'', JStr ?u)] = JDict d"
    and url: "py_or (dict_get d ''url'' (JStr [])) (JStr []) = JStr url"
    and len: "map_of f ''url_length'' = Some (VInt (int (length url)))"
    and digits: "map_of f ''num_digits_in_url'' = Some (VInt (int (length (filter is_digit url))))"
    and look: "map_of f ''digit_ratio'' = Some (VFloat r1)"
      "map_of f ''special_char_ratio'' = Some (VFloat r2)"
    and r1: "r1 = py_round3 (py_truediv (length (filter is_digit url)) (length url + 1))"
    and r2: "0 \<le> r2" "r2 \<le> 1"
    by blast
  from d have "d = [(''url'', JStr ?u)]"
    by simp
  with url have u: "url = ?u"
    by (simp add: dict_get_def py_or_def)
  have n: "int (length ?u) = 79" "int (length (filter is_digit ?u)) = 1"
    by code_simp+
  have "py_round3 (py_truediv (length (filter is_digit ?u)) (length ?u + 1))
          = 7493989779944505 / 576460752303423488"
    by code_simp
  with r1 u have "r1 = 7493989779944505 / 576460752303423488"
    by simp
  with f len digits look r2 n u show ?thesis
    by auto
qed

subsection \<open>The encoded-character indicators\<close>

text \<open>
  Claim C10. The content extractor's \<open>contains_encoded_chars\<close> does not count the equals
  sign: when the destination is a string with an equals sign and none of the characters
  percent, plus, minus and underscore, a normal return has \<open>contains_encoded_chars = 0\<close>.
  The URL extractor's indicator counts it: when the URL is a string with an equals sign,
  a normal return has \<open>contains_encoded_chars = 1\<close>.
\<close>

theorem C10_equals_sign:
  "(extract_contentinfo_features (JDict d) = Inr f
      \<and> dict_get d ''destination'' (JStr []) = JStr dest
      \<and> CHR ''='' \<in> set dest \<and> (\<forall>c \<in> set ''%+-_''. c \<notin> set dest)
    \<longrightarrow> map_of f ''contains_encoded_chars'' = Some (VInt 0))
   \<and> (extract_general_features up (JDict d') = Inr g
      \<and> dict_get d' ''url'' (JStr []) = JStr url \<and> CHR ''='' \<in> set url
    \<longrightarrow> map_of g ''contains_encoded_chars'' = Some (VInt 1))"
proof (intro conjI impI; elim conjE)
  assume ok: "extract_contentinfo_features (JDict d) = Inr f"
    and dest: "dict_get d ''destination'' (JStr []) = JStr dest"
    and none: "\<forall>c \<in> set ''%+-_''. c \<notin> set dest"
  from ok obtain d0 sc tlen hlen html ulen nsub dest0 nreq nresp servers cts nmd5 tot nll nascii
    where "JDict d = JDict d0" "dict_get d0 ''destination'' (JStr []) = JStr dest0"
      and f: "f = content_dict d0 sc tlen hlen html ulen nsub dest0 nreq nresp servers cts nmd5 tot
                    nll nascii"
    by (rule content_inv)
  with dest have "dest0 = dest"
    by simp
  with f none show "map_of f ''contains_encoded_chars'' = Some (VInt 0)"
    by (simp add: content_dict_dest int_of_bool_def)
next
  assume ok: "extract_general_features up (JDict d') = Inr g"
    and url: "dict_get d' ''url'' (JStr []) = JStr url"
    and eq: "CHR ''='' \<in> set url"
  from ok obtain d0 url0 parsed hs sl nl rnd cs tc
    where "JDict d' = JDict d0" "py_or (dict_get d0 ''url'' (JStr [])) (JStr []) = JStr url0"
      and g: "g = general_dict d0 url0 parsed hs sl nl rnd cs tc"
    by (rule general_inv)
  with url eq have "url0 = url"
    by (auto simp: py_or_def split: if_splits)
  with g eq show "map_of g ''contains_encoded_chars'' = Some (VInt 1)"
    by (simp add: general_dict_url int_of_bool_def)
qed

theorem C10_equals_sign_witness:
  "feature ''contains_encoded_chars''
     (extract_contentinfo_features (JDict [(''destination'', JStr ''http://a.b/?x=1'')]))
     = Some (VInt 0)
   \<and> feature ''contains_encoded_chars''
     (extract_general_features urlparse (JDict [(''url'', JStr ''http://a.b/?x=1'')]))
     = Some (VInt 1)"
proof -
  have "returns (extract_contentinfo_features (JDict [(''destination'', JStr ''http://a.b/?x=1'')]))"
    by code_simp
  then obtain f where
    f: "extract_contentinfo_features (JDict [(''destination'', JStr ''http://a.b/?x=1'')]) = Inr f"
    unfolding returns_iff ..
  have "returns (extract_general_features urlparse (JDict [(''url'', JStr ''http://a.b/?x=1'')]))"
    by code_simp
  then obtain g where
    g: "extract_general_features urlparse (JDict [(''url'', JStr ''http://a.b/?x=1'')]) = Inr g"
    unfolding returns_iff ..
  have "map_of f ''contains_encoded_chars'' = Some (VInt 0)"
    using C10_equals_sign [of "[(''destination'', JStr ''http://a.b/?x=1'')]" f "''http://a.b/?x=1''"] f
    by (simp add: dict_get_def)
  moreover have "map_of g ''contains_encoded_chars'' = Some (VInt 1)"
    using C10_equals_sign [of _ _ _ urlparse "[(''url'', JStr ''http://a.b/?x=1'')]" g "''http://a.b/?x=1''"] g
    by (simp add: dict_get_def)
  ultimately show ?thesis
    using f g by (simp add: feature_def)
qed

subsection \<open>Fields of the wrong type\<close>

text \<open>
  Claim C4 says that a \<open>url\<close> that is not a string is treated as the empty string and that
  a \<open>content_status\<close> which \<^verbatim>\<open>int()\<close> cannot convert becomes 0. With the number 5 as \<open>url\<close>
  the extractor raises \<^verbatim>\<open>AttributeError\<close>, and with the string \<^verbatim>\<open>abc\<close> as
  \<open>content_status\<close> it raises \<^verbatim>\<open>ValueError\<close>.
\<close>

theorem C4_counterexample:
  "extract_general_features urlparse (JDict [(''url'', JInt 5)]) = Inl AttributeError
   \<and> extract_general_features urlparse (JDict [(''content_status'', JStr ''abc'')]) = Inl ValueError"
  by code_simp

text \<open>
  Claim C4 as amended. A \<open>url\<close> that is false in a Boolean context (\<^verbatim>\<open>null\<close>, \<^verbatim>\<open>false\<close>, 0,
  an empty string, list or dictionary) is treated as the empty string: the extractor does
  what it does on the record with \<open>url\<close> set to the empty string. Whenever the extractor
  returns, \<^verbatim>\<open>int()\<close> has converted \<open>content_status\<close> and the feature is the converted
  value, which is 0 for an absent field; there is no fallback when the conversion fails.
\<close>

theorem C4_coercion:
  "(\<not> py_bool (dict_get d ''url'' (JStr []))
      \<longrightarrow> extract_general_features up (JDict d)
            = extract_general_features up (JDict ((''url'', JStr []) # d)))
   \<and> (extract_general_features up (JDict d) = Inr f
      \<longrightarrow> (\<exists>n. py_int (dict_get d ''content_status'' (JInt 0)) = Inr n
               \<and> map_of f ''content_status'' = Some (VInt n)
               \<and> (map_of d ''content_status'' = None \<longrightarrow> n = 0)))"
proof (intro conjI impI)
  assume falsy: "\<not> py_bool (dict_get d ''url'' (JStr []))"
  let ?d' = "(''url'', JStr []) # d"
  have other: "dict_get ?d' ''subdomain'' = dict_get d ''subdomain''"
    "dict_get ?d' ''has_subdomain'' = dict_get d ''has_subdomain''"
    "dict_get ?d' ''dns_status'' = dict_get d ''dns_status''"
    "dict_get ?d' ''content_status'' = dict_get d ''content_status''"
    "dict_get ?d' ''tech_info'' = dict_get d ''tech_info''"
    by (simp_all add: dict_get_def fun_eq_iff)
  have same_dict: "general_dict ?d' = general_dict d"
    by (intro ext) (simp only: general_dict_def other)
  have url: "py_or (dict_get d ''url'' (JStr [])) (JStr []) = JStr []"
    "py_or (dict_get ?d' ''url'' (JStr [])) (JStr []) = JStr []"
    using falsy by (simp_all add: py_or_def dict_get_def)
  show "extract_general_features up (JDict d) = extract_general_features up (JDict ?d')"
    unfolding general_chain py_dict_def
    by (simp only: json.case py_bind_Inr url other same_dict)
next
  assume "extract_general_features up (JDict d) = Inr f"
  then obtain d0 url parsed hs sl nl rnd cs tc where
    d0: "JDict d = JDict d0"
    and cs: "py_int (dict_get d0 ''content_status'' (JInt 0)) = Inr cs"
    and f: "f = general_dict d0 url parsed hs sl nl rnd cs tc"
    by (rule general_inv)
  from d0 have "d0 = d"
    by simp
  with cs have 1: "py_int (dict_get d ''content_status'' (JInt 0)) = Inr cs"
    by simp
  have 2: "map_of f ''content_status'' = Some (VInt cs)"
    unfolding f by (rule general_dict_status)
  from 1 have "map_of d ''content_status'' = None \<longrightarrow> cs = 0"
    by (auto simp: dict_get_def)
  with 1 2 show "\<exists>n. py_int (dict_get d ''content_status'' (JInt 0)) = Inr n
      \<and> map_of f ''content_status'' = Some (VInt n)
      \<and> (map_of d ''content_status'' = None \<longrightarrow> n = 0)"
    by (intro exI [of _ cs]) simp
qed

theorem C4_coercion_witness:
  "extract_general_features urlparse (JDict [(''url'', JNull), (''content_status'', JStr '' 404 '')])
     = extract_general_features urlparse
         (JDict [(''url'', JStr []), (''url'', JNull), (''content_status'', JStr '' 404 '')])
   \<and> feature ''url_length''
       (extract_general_features urlparse (JDict [(''url'', JNull), (''content_status'', JStr '' 404 '')]))
     = Some (VInt 0)
   \<and> feature ''content_status''
       (extract_general_features urlparse (JDict [(''url'', JNull), (''content_status'', JStr '' 404 '')]))
     = Some (VInt 404)"
proof -
  let ?d = "[(''url'', JNull), (''content_status'', JStr '' 404 '')]"
  have falsy: "\<not> py_bool (dict_get ?d ''url'' (JStr []))"
    by (simp add: dict_get_def)
  have "returns (extract_general_features urlparse (JDict ?d))"
    by code_simp
  then obtain f where f: "extract_general_features urlparse (JDict ?d) = Inr f"
    unfolding returns_iff ..
  have n: "py_int (dict_get ?d ''content_status'' (JInt 0)) = Inr 404"
    by code_simp
  from C4_coercion [of ?d urlparse f] falsy
  have a: "extract_general_features urlparse (JDict ?d)
             = extract_general_features urlparse (JDict ((''url'', JStr []) # ?d))"
    by blast
  from C4_coercion [of ?d urlparse f] f n
  have "map_of f ''content_status'' = Some (VInt 404)"
    by auto
  then have b: "feature ''content_status'' (extract_general_features urlparse (JDict ?d))
                  = Some (VInt 404)"
    unfolding f by (simp add: feature_def)
  have c: "feature ''url_length'' (extract_general_features urlparse (JDict ?d)) = Some (VInt 0)"
    by code_simp
  from a b c show ?thesis
    by blast
qed

subsection \<open>Rows\<close>

lemma map_add_upd_left: "k \<notin> dom n \<Longrightarrow> m(k \<mapsto> v) ++ n = (m ++ n)(k \<mapsto> v)"
  by (auto simp: map_add_def fun_eq_iff split: option.splits)

lemma map_of_foldl_update:
  "distinct (map fst xs) \<Longrightarrow>
     map_of (foldl (\<lambda>r (k, v). AList.update k v r) row xs) = map_of row ++ map_of xs"
proof (induction xs arbitrary: row)
  case Nil
  show ?case
    by simp
next
  case (Cons x xs)
  obtain k v where x: "x = (k, v)"
    by (cases x)
  from Cons.prems x have k: "k \<notin> dom (map_of xs)" and dist: "distinct (map fst xs)"
    by (auto simp: dom_map_of_conv_image_fst)
  have "map_of (foldl (\<lambda>r (k, v). AList.update k v r) row (x # xs))
          = map_of (AList.update k v row) ++ map_of xs"
    using Cons.IH [OF dist] x by simp
  also have "\<dots> = (map_of row)(k \<mapsto> v) ++ map_of xs"
    by (simp add: update_conv')
  also have "\<dots> = (map_of row ++ map_of xs)(k \<mapsto> v)"
    using k by (rule map_add_upd_left)
  also have "\<dots> = map_of row ++ map_of (x # xs)"
    using x by simp
  finally show ?case .
qed

lemma map_of_dict_update: "map_of (dict_update row d) = map_of row ++ map_of d"
  unfolding dict_update_def
  by (simp add: map_of_foldl_update distinct_clearjunk map_of_clearjunk)

text \<open>The row of a record that is a non-empty dictionary: the four feature dictionaries
  merged in the order of the calls, a later one winning on a shared key, then the metadata.\<close>

lemma build_row_map:
  assumes "d \<noteq> []"
  shows "\<exists>row. build_row E label category_name filename (Some (JDict d)) = Some row
    \<and> map_of row =
        (map_of (safe_call (extract_general_features (env_urlparse E)) (JDict d))
         ++ map_of (safe_call (extract_hostinfo_features E)
                     (py_or (dict_get d ''host_info'' JNull) (JDict [])))
         ++ map_of (safe_call extract_contentinfo_features
                     (py_or (dict_get d ''content_info'' JNull) (JDict [])))
         ++ map_of (safe_call (extract_additional_features E)
                     (py_or (dict_get d ''additional'' JNull) (JDict []))))
        (''label'' \<mapsto> VInt label, ''filename'' \<mapsto> VStr filename,
         ''category'' \<mapsto> VStr category_name)"
  using assms
  by (simp add: build_row_def Let_def map_of_dict_update update_conv')

lemma build_row_metadata:
  assumes "build_row E label category_name filename loaded = Some row"
  shows "map_of row ''label'' = Some (VInt label)"
    and "map_of row ''filename'' = Some (VStr filename)"
    and "map_of row ''category'' = Some (VStr category_name)"
  using assms
  by (auto simp: build_row_def Let_def update_conv' split: option.splits if_splits json.splits)


lemma file_rows_Cons:
  "file_rows E label category_name ((filename, file) # ys)
     = (if is_json_name filename
        then (case build_row E label category_name filename (load_json_file E file) of
                None \<Rightarrow> file_rows E label category_name ys
              | Some row \<Rightarrow> row # file_rows E label category_name ys)
        else file_rows E label category_name ys)"
  by (simp add: file_rows_def map_filter_simps split: option.splits)

lemma set_map_filter_iff: "y \<in> set (List.map_filter f xs) \<longleftrightarrow> (\<exists>x \<in> set xs. f x = Some y)"
  by (induction xs) (auto simp: map_filter_simps split: option.splits)

lemma file_rows_metadata:
  assumes "row \<in> set (file_rows E label category_name entries)"
  shows "map_of row ''label'' = Some (VInt label)
       \<and> map_of row ''category'' = Some (VStr category_name)"
  using assms
  by (auto simp: file_rows_def set_map_filter_iff build_row_metadata)

subsection \<open>Labels and categories\<close>

text \<open>
  Claim C9. The dataset is the rows of the benign folder followed by those of the malicious
  folder. Every row of the benign folder has label 1 and category \<open>benign\<close>, every row of
  the malicious folder has label 0 and category \<open>malicious\<close>; so in every row of the
  dataset the label is 1 exactly when the category is \<open>benign\<close>, and 0 exactly when it
  is \<open>malicious\<close>.
\<close>

theorem C9_label_category:
  "data_rows E = folder_rows E (BENIGN_PATH, 1, ''benign'')
                   @ folder_rows E (MALICIOUS_PATH, 0, ''malicious'')
   \<and> (\<forall>row \<in> set (folder_rows E (BENIGN_PATH, 1, ''benign'')).
         map_of row ''label'' = Some (VInt 1) \<and> map_of row ''category'' = Some (VStr ''benign''))
   \<and> (\<forall>row \<in> set (folder_rows E (MALICIOUS_PATH, 0, ''malicious'')).
         map_of row ''label'' = Some (VInt 0) \<and> map_of row ''category'' = Some (VStr ''malicious''))
   \<and> (\<forall>row \<in> set (data_rows E).
         (map_of row ''label'' = Some (VInt 1) \<longleftrightarrow> map_of row ''category'' = Some (VStr ''benign''))
       \<and> (map_of row ''label'' = Some (VInt 0) \<longleftrightarrow> map_of row ''category'' = Some (VStr ''malicious'')))"
proof -
  have rows: "data_rows E = folder_rows E (BENIGN_PATH, 1, ''benign'')
                   @ folder_rows E (MALICIOUS_PATH, 0, ''malicious'')"
    by (simp add: data_rows_def categories_def)
  have meta: "map_of row ''label'' = Some (VInt label)
       \<and> map_of row ''category'' = Some (VStr category_name)"
    if "row \<in> set (folder_rows E (folder_path, label, category_name))"
    for row folder_path label category_name
    using that file_rows_metadata
    by (auto simp: folder_rows_def split: option.splits)
  have benign: "\<forall>row \<in> set (folder_rows E (BENIGN_PATH, 1, ''benign'')).
         map_of row ''label'' = Some (VInt 1) \<and> map_of row ''category'' = Some (VStr ''benign'')"
    using meta by blast
  have malicious: "\<forall>row \<in> set (folder_rows E (MALICIOUS_PATH, 0, ''malicious'')).
         map_of row ''label'' = Some (VInt 0) \<and> map_of row ''category'' = Some (VStr ''malicious'')"
    using meta by blast
  have both: "\<forall>row \<in> set (data_rows E).
         (map_of row ''label'' = Some (VInt 1) \<longleftrightarrow> map_of row ''category'' = Some (VStr ''benign''))
       \<and> (map_of row ''label'' = Some (VInt 0) \<longleftrightarrow> map_of row ''category'' = Some (VStr ''malicious''))"
    unfolding rows using benign malicious by auto
  from rows benign malicious both show ?thesis
    by (intro conjI)
qed

text \<open>The example environment.\<close>

lemma example_listdir:
  "listdir example_env BENIGN_PATH = Some [(''a.json'', Some '' text of a '')]"
  "listdir example_env MALICIOUS_PATH
     = Some [(''b.JSON'', Some ''text of b''), (''c.json'', Some ''not json''),
             (''d.txt'', Some ''text of b''), (''e.json'', None)]"
  by (simp_all add: example_env_def BENIGN_PATH_def MALICIOUS_PATH_def)

lemma example_load:
  "load_json_file example_env (Some '' text of a '') = Some example_record_a"
  "load_json_file example_env (Some ''text of b'') = Some example_record_b"
  by code_simp+

lemma example_names: "is_json_name ''a.json''" "is_json_name ''b.JSON''"
  by code_simp+

lemma example_row_a:
  "\<exists>row. build_row example_env 1 ''benign'' ''a.json'' (Some example_record_a) = Some row
         \<and> row \<in> set (data_rows example_env)"
proof -
  obtain row where
    row: "build_row example_env 1 ''benign'' ''a.json'' (Some example_record_a) = Some row"
    unfolding example_record_a_def using build_row_map [of _ example_env 1 "''benign''" "''a.json''"]
    by blast
  then have "row \<in> set (folder_rows example_env (BENIGN_PATH, 1, ''benign''))"
    by (simp add: folder_rows_def example_listdir file_rows_Cons example_names example_load)
  then show ?thesis
    using row by (auto simp: data_rows_def categories_def)
qed

lemma example_row_b:
  "\<exists>row. build_row example_env 0 ''malicious'' ''b.JSON'' (Some example_record_b) = Some row
         \<and> row \<in> set (data_rows example_env)"
proof -
  obtain row where
    row: "build_row example_env 0 ''malicious'' ''b.JSON'' (Some example_record_b) = Some row"
    unfolding example_record_b_def using build_row_map [of _ example_env 0 "''malicious''" "''b.JSON''"]
    by blast
  then have "row \<in> set (folder_rows example_env (MALICIOUS_PATH, 0, ''malicious''))"
    by (simp add: folder_rows_def example_listdir file_rows_Cons example_names example_load)
  then show ?thesis
    using row by (auto simp: data_rows_def categories_def)
qed

theorem C9_label_category_witness:
  "(\<exists>row \<in> set (data_rows example_env).
      map_of row ''filename'' = Some (VStr ''a.json'')
    \<and> map_of row ''label'' = Some (VInt 1) \<and> map_of row ''category'' = Some (VStr ''benign''))
   \<and> (\<exists>row \<in> set (data_rows example_env).
      map_of row ''filename'' = Some (VStr ''b.JSON'')
    \<and> map_of row ''label'' = Some (VInt 0) \<and> map_of row ''category'' = Some (VStr ''malicious''))"
proof -
  from example_row_a obtain ra where
    ra: "build_row example_env 1 ''benign'' ''a.json'' (Some example_record_a) = Some ra"
    and ina: "ra \<in> set (data_rows example_env)"
    by blast
  from example_row_b obtain rb where
    rb: "build_row example_env 0 ''malicious'' ''b.JSON'' (Some example_record_b) = Some rb"
    and inb: "rb \<in> set (data_rows example_env)"
    by blast
  have fa: "map_of ra ''filename'' = Some (VStr ''a.json'')"
    and ca: "map_of ra ''category'' = Some (VStr ''benign'')"
    using ra by (rule build_row_metadata)+
  have fb: "map_of rb ''filename'' = Some (VStr ''b.JSON'')"
    and cb: "map_of rb ''category'' = Some (VStr ''malicious'')"
    using rb by (rule build_row_metadata)+
  from C9_label_category [of example_env] ina ca have la: "map_of ra ''label'' = Some (VInt 1)"
    by blast
  from C9_label_category [of example_env] inb cb have lb: "map_of rb ''label'' = Some (VInt 0)"
    by blast
  from ina fa la ca inb fb lb cb show ?thesis
    by blast
qed

subsection \<open>Failure of one extractor\<close>





subsection \<open>The two vocabularies\<close>

text \<open>
  Claim C2 says that no key of \<open>extract_general_features\<close> is a key of
  \<open>extract_contentinfo_features\<close>. Both assign \<open>url_length\<close>: on the second example record
  the URL extractor gives 20, the content extractor gives 13 for the destination, and the
  row that the orchestrator builds holds 13.
\<close>

theorem C2_counterexample:
  "feature ''url_length'' (extract_general_features urlparse example_record_b) = Some (VInt 20)
   \<and> feature ''url_length''
       (extract_contentinfo_features (JDict [(''destination'', JStr ''https://c.d/e'')]))
     = Some (VInt 13)
   \<and> row_value ''url_length''
       (build_row example_env 0 ''malicious'' ''b.JSON'' (Some example_record_b))
     = Some (VInt 13)"
proof -
  let ?d = "[(''url'', JStr ''http://1.2.3.4/x?y=1''),
            (''content_info'', JDict [(''destination'', JStr ''https://c.d/e'')])]"
  let ?G = "map_of (safe_call (extract_general_features (env_urlparse example_env)) (JDict ?d))"
  let ?H = "map_of (safe_call (extract_hostinfo_features example_env)
                     (py_or (dict_get ?d ''host_info'' JNull) (JDict [])))"
  let ?C = "map_of (safe_call extract_contentinfo_features
                     (py_or (dict_get ?d ''content_info'' JNull) (JDict [])))"
  let ?A = "map_of (safe_call (extract_additional_features example_env)
                     (py_or (dict_get ?d ''additional'' JNull) (JDict [])))"
  have g: "feature ''url_length'' (extract_general_features urlparse example_record_b)
             = Some (VInt 20)"
    by code_simp
  have c: "feature ''url_length''
       (extract_contentinfo_features (JDict [(''destination'', JStr ''https://c.d/e'')]))
     = Some (VInt 13)"
    by code_simp
  have "?d \<noteq> []"
    by simp
  from build_row_map [OF this, of example_env 0 "''malicious''" "''b.JSON''"] obtain row where
    row: "build_row example_env 0 ''malicious'' ''b.JSON'' (Some example_record_b) = Some row"
    and m: "map_of row = (?G ++ ?H ++ ?C ++ ?A)(''label'' \<mapsto> VInt 0,
         ''filename'' \<mapsto> VStr ''b.JSON'', ''category'' \<mapsto> VStr ''malicious'')"
    unfolding example_record_b_def by blast
  have "(?G ++ ?H ++ ?C ++ ?A) ''url_length'' = Some (VInt 13)"
    by code_simp
  with m have "map_of row ''url_length'' = Some (VInt 13)"
    by simp
  then have "row_value ''url_length''
       (build_row example_env 0 ''malicious'' ''b.JSON'' (Some example_record_b)) = Some (VInt 13)"
    unfolding row by (simp add: row_value_def)
  with g c show ?thesis
    by (intro conjI)
qed

text \<open>
  Claim C2 as amended. Whenever both extractors return, their dictionaries share exactly
  the three keys \<open>url_length\<close>, \<open>contains_ip_in_url\<close> and \<open>contains_encoded_chars\<close>; every
  other key belongs to one extractor only.
\<close>

theorem C2_shared_keys:
  assumes "extract_general_features up data = Inr g"
    and "extract_contentinfo_features content_info = Inr c"
  shows "fst ` set g \<inter> fst ` set c
           = {''url_length'', ''contains_ip_in_url'', ''contains_encoded_chars''}"
proof -
  have "set general_keys \<inter> set content_keys
          = {''url_length'', ''contains_ip_in_url'', ''contains_encoded_chars''}"
    by code_simp
  moreover from assms(1) have "fst ` set g = set general_keys"
    by (metis general_keys_of_result set_map)
  moreover from assms(2) have "fst ` set c = set content_keys"
    by (metis content_keys_of_result set_map)
  ultimately show ?thesis
    by simp
qed

theorem C2_shared_keys_witness:
  "\<exists>g c. extract_general_features urlparse example_record_b = Inr g
       \<and> extract_contentinfo_features (JDict [(''destination'', JStr ''https://c.d/e'')]) = Inr c
       \<and> fst ` set g \<inter> fst ` set c
           = {''url_length'', ''contains_ip_in_url'', ''contains_encoded_chars''}"
proof -
  have "returns (extract_general_features urlparse example_record_b)"
    by code_simp
  then obtain g where g: "extract_general_features urlparse example_record_b = Inr g"
    unfolding returns_iff ..
  have "returns (extract_contentinfo_features (JDict [(''destination'', JStr ''https://c.d/e'')]))"
    by code_simp
  then obtain c where
    c: "extract_contentinfo_features (JDict [(''destination'', JStr ''https://c.d/e'')]) = Inr c"
    unfolding returns_iff ..
  from C2_shared_keys [OF g c] g c show ?thesis
    by blast
qed

subsection \<open>Server headers of the HAR entries\<close>

lemma py_in_sublist: "py_in sub s \<longleftrightarrow> sublist sub s"
  by (induction s) (simp_all add: sublist_Cons_right)

lemma sublist_py_join: "x \<in> set xs \<Longrightarrow> sublist x (py_join sep xs)"
proof (induction sep xs rule: py_join.induct)
  case (1 sep)
  then show ?case
    by simp
next
  case (2 sep y)
  then show ?case
    by simp
next
  case (3 sep y z zs)
  show ?case
  proof (cases "x = y")
    case True
    then show ?thesis
      by (simp add: sublist_append_rightI)
  next
    case False
    with 3 have "sublist x (py_join sep (z # zs))"
      by simp
    then obtain a b where "py_join sep (z # zs) = a @ x @ b"
      by (auto simp: sublist_def)
    then have "py_join sep (y # z # zs) = (y @ sep @ a) @ x @ b"
      by simp
    then show ?thesis
      unfolding sublist_def by blast
  qed
qed

lemma py_in_py_join:
  assumes "py_in sub x" and "x \<in> set xs"
  shows "py_in sub (py_join sep xs)"
proof -
  from assms(1) have "sublist sub x"
    by (simp add: py_in_sublist)
  moreover from assms(2) have "sublist x (py_join sep xs)"
    by (rule sublist_py_join)
  ultimately have "sublist sub (py_join sep xs)"
    by (rule sublist_order.order_trans)
  then show ?thesis
    by (simp add: py_in_sublist)
qed

lemma py_get_Inr_iff: "py_get x k dflt = Inr v \<longleftrightarrow> (\<exists>d. x = JDict d \<and> v = dict_get d k dflt)"
  by (auto simp: py_get_def py_bind_Inr_iff py_dict_Inr_iff)

lemma py_lower_method_Inr_iff: "py_lower_method x = Inr t \<longleftrightarrow> (\<exists>s. x = JStr s \<and> t = py_lower s)"
  by (auto simp: py_lower_method_def py_bind_Inr_iff py_str_receiver_Inr_iff)

lemma header_step_Inr:
  assumes "header_step h acc = Inr acc'"
  obtains kv k v where "h = JDict kv"
    and "dict_get kv ''key'' (JStr []) = JStr k"
    and "dict_get kv ''value'' (JStr []) = JStr v"
    and "fst acc' = (if py_lower k = ''server'' then fst acc @ [py_lower v] else fst acc)"
  using assms
  unfolding header_step_def Let_def py_bind_Inr_iff py_get_Inr_iff py_lower_method_Inr_iff
  by (elim exE conjE) (use that in force)

lemma py_for_Cons_Inr:
  "py_for body (x # xs) s = Inr s' \<longleftrightarrow> (\<exists>m. body x s = Inr m \<and> py_for body xs m = Inr s')"
  by (simp add: py_bind_Inr_iff)

lemma entry_step_Inr:
  assumes "entry_step entry acc = Inr acc'"
  obtains e r hs where "entry = JDict e"
    and "dict_get e ''response'' (JDict []) = JDict r"
    and "py_iter (dict_get r ''headers'' (JList [])) = Inr hs"
    and "py_for header_step hs acc = Inr acc'"
  using assms
  unfolding entry_step_def py_bind_Inr_iff py_get_Inr_iff
  by (elim exE conjE) (use that in force)

lemma header_step_servers:
  assumes "header_step h acc = Inr acc'"
  shows "fst acc' = fst acc @ header_value ''server'' h"
  using assms by (elim header_step_Inr) (simp add: header_value_def)

lemma header_loop_servers:
  "py_for header_step hs acc = Inr acc' \<Longrightarrow>
     fst acc' = fst acc @ concat (map (header_value ''server'') hs)"
proof (induction hs arbitrary: acc)
  case Nil
  then show ?case
    by simp
next
  case (Cons h hs)
  then obtain m where h: "header_step h acc = Inr m" and rest: "py_for header_step hs m = Inr acc'"
    unfolding py_for_Cons_Inr by blast
  from rest have "fst acc' = fst m @ concat (map (header_value ''server'') hs)"
    by (rule Cons.IH)
  with header_step_servers [OF h] show ?case
    by simp
qed

lemma entry_step_servers:
  assumes "entry_step entry acc = Inr acc'"
  shows "fst acc' = fst acc @ concat (map (header_value ''server'') (entry_headers entry))"
proof -
  from assms obtain e r hs where "entry = JDict e"
    and "dict_get e ''response'' (JDict []) = JDict r"
    and "py_iter (dict_get r ''headers'' (JList [])) = Inr hs"
    and loop: "py_for header_step hs acc = Inr acc'"
    by (rule entry_step_Inr)
  then have "entry_headers entry = hs"
    by (simp add: entry_headers_def)
  with header_loop_servers [OF loop] show ?thesis
    by simp
qed

lemma entry_loop_servers:
  "py_for entry_step es acc = Inr acc' \<Longrightarrow> fst acc' = fst acc @ header_values ''server'' es"
proof (induction es arbitrary: acc)
  case Nil
  then show ?case
    by (simp add: header_values_def)
next
  case (Cons x es)
  then obtain m where x: "entry_step x acc = Inr m" and rest: "py_for entry_step es m = Inr acc'"
    unfolding py_for_Cons_Inr by blast
  from rest have "fst acc' = fst m @ header_values ''server'' es"
    by (rule Cons.IH)
  with entry_step_servers [OF x] show ?case
    by (simp add: header_values_def)
qed

lemma header_values_member:
  assumes "JDict e \<in> set entries"
    and "dict_get e ''response'' (JDict []) = JDict r"
    and "dict_get r ''headers'' (JList []) = JList hs"
    and "JDict kv \<in> set hs"
    and "dict_get kv ''key'' (JStr []) = JStr k" and "py_lower k = name"
    and "dict_get kv ''value'' (JStr []) = JStr v"
  shows "py_lower v \<in> set (header_values name entries)"
proof -
  from assms(2,3) have "entry_headers (JDict e) = hs"
    by (simp add: entry_headers_def)
  moreover from assms(5-7) have "py_lower v \<in> set (header_value name (JDict kv))"
    by (simp add: header_value_def)
  ultimately have "py_lower v \<in> set (concat (map (header_value name) (entry_headers (JDict e))))"
    using assms(4) by auto
  with assms(1) show ?thesis
    unfolding header_values_def by auto
qed

lemma content_dict_servers:
  "map_of (content_dict d sc tlen hlen html ulen nsub dest nreq nresp servers cts nmd5 tot nll nascii)
     ''has_aws_cloudfront''
     = Some (VInt (int_of_bool (py_in ''cloudfront'' (py_join '' '' servers))))"
  "map_of (content_dict d sc tlen hlen html ulen nsub dest nreq nresp servers cts nmd5 tot nll nascii)
     ''has_tencent_cos''
     = Some (VInt (int_of_bool (py_in ''tencent-cos'' (py_join '' '' servers))))"
  by (simp_all add: content_dict_def Let_def)

text \<open>
  Claim C8. On the example with one header \<^verbatim>\<open>Server: cloudflare\<close> the extractor returns
  \<open>has_cloudflare = 1\<close>. In general, whenever the extractor returns, the list \<open>servers\<close>
  that its loop over the entries of \<open>har\<close> has collected is \<open>header_values ''server''\<close> of
  those entries, and each of the three fingerprint features is the substring test on
  that list joined by a space. So the lower-cased value of every header whose key is
  \<open>server\<close> after lower-casing is one of the joined strings, and when it contains
  \<open>cloudflare\<close> the feature \<open>has_cloudflare\<close> is 1.
\<close>

theorem C8_server_header:
  "feature ''has_cloudflare''
     (extract_contentinfo_features
        (JDict [(''har'', JList [JDict [(''response'', JDict [(''headers'',
           JList [JDict [(''key'', JStr ''Server''), (''value'', JStr ''cloudflare'')]])])]])]))
     = Some (VInt 1)
   \<and> (extract_contentinfo_features (JDict d) = Inr f \<longrightarrow>
        (\<exists>entries content_types.
           py_iter (dict_get d ''har'' (JList [])) = Inr entries
         \<and> py_for entry_step entries ([], []) = Inr (header_values ''server'' entries, content_types)
         \<and> map_of f ''has_cloudflare''
             = Some (VInt (int_of_bool
                 (py_in ''cloudflare'' (py_join '' '' (header_values ''server'' entries)))))
         \<and> map_of f ''has_aws_cloudfront''
             = Some (VInt (int_of_bool
                 (py_in ''cloudfront'' (py_join '' '' (header_values ''server'' entries)))))
         \<and> map_of f ''has_tencent_cos''
             = Some (VInt (int_of_bool
                 (py_in ''tencent-cos'' (py_join '' '' (header_values ''server'' entries)))))
         \<and> (\<forall>e r hs kv k v.
               JDict e \<in> set entries \<and> dict_get e ''response'' (JDict []) = JDict r
             \<and> dict_get r ''headers'' (JList []) = JList hs \<and> JDict kv \<in> set hs
             \<and> dict_get kv ''key'' (JStr []) = JStr k \<and> py_lower k = ''server''
             \<and> dict_get kv ''value'' (JStr []) = JStr v
             \<longrightarrow> py_lower v \<in> set (header_values ''server'' entries)
               \<and> (py_in ''cloudflare'' (py_lower v)
                    \<longrightarrow> map_of f ''has_cloudflare'' = Some (VInt 1)))))"
proof (intro conjI impI)
  show "feature ''has_cloudflare''
     (extract_contentinfo_features
        (JDict [(''har'', JList [JDict [(''response'', JDict [(''headers'',
           JList [JDict [(''key'', JStr ''Server''), (''value'', JStr ''cloudflare'')]])])]])]))
     = Some (VInt 1)"
    by code_simp
next
  assume ok: "extract_contentinfo_features (JDict d) = Inr f"
  then obtain d0 sc tlen hlen html ulen nsub dest nreq nresp entries servers cts nmd5 tot nll nascii
    where d0: "JDict d = JDict d0"
      and it0: "py_iter (dict_get d0 ''har'' (JList [])) = Inr entries"
      and loop0: "py_for entry_step entries ([], []) = Inr (servers, cts)"
      and f: "f = content_dict d0 sc tlen hlen html ulen nsub dest nreq nresp servers cts nmd5 tot
                    nll nascii"
    by (rule content_inv)
  from d0 it0 have it: "py_iter (dict_get d ''har'' (JList [])) = Inr entries"
    by simp
  from entry_loop_servers [OF loop0] have servers: "servers = header_values ''server'' entries"
    by simp
  from loop0 have loop:
    "py_for entry_step entries ([], []) = Inr (header_values ''server'' entries, cts)"
    by (simp only: servers)
  have cf: "map_of f ''has_cloudflare''
     = Some (VInt (int_of_bool (py_in ''cloudflare'' (py_join '' '' (header_values ''server'' entries)))))"
    unfolding f servers [symmetric] by (rule content_dict_dest)
  have aws: "map_of f ''has_aws_cloudfront''
     = Some (VInt (int_of_bool (py_in ''cloudfront'' (py_join '' '' (header_values ''server'' entries)))))"
    and cos: "map_of f ''has_tencent_cos''
     = Some (VInt (int_of_bool (py_in ''tencent-cos'' (py_join '' '' (header_values ''server'' entries)))))"
    unfolding f servers [symmetric] by (rule content_dict_servers)+
  have each: "\<forall>e r hs kv k v.
               JDict e \<in> set entries \<and> dict_get e ''response'' (JDict []) = JDict r
             \<and> dict_get r ''headers'' (JList []) = JList hs \<and> JDict kv \<in> set hs
             \<and> dict_get kv ''key'' (JStr []) = JStr k \<and> py_lower k = ''server''
             \<and> dict_get kv ''value'' (JStr []) = JStr v
             \<longrightarrow> py_lower v \<in> set (header_values ''server'' entries)
               \<and> (py_in ''cloudflare'' (py_lower v)
                    \<longrightarrow> map_of f ''has_cloudflare'' = Some (VInt 1))"
  proof (intro allI impI, elim conjE)
    fix e r hs kv k v
    assume "JDict e \<in> set entries" "dict_get e ''response'' (JDict []) = JDict r"
      "dict_get r ''headers'' (JList []) = JList hs" "JDict kv \<in> set hs"
      "dict_get kv ''key'' (JStr []) = JStr k" "py_lower k = ''server''"
      "dict_get kv ''value'' (JStr []) = JStr v"
    then have mem: "py_lower v \<in> set (header_values ''server'' entries)"
      by (rule header_values_member)
    then have "py_in ''cloudflare'' (py_lower v)
        \<longrightarrow> map_of f ''has_cloudflare'' = Some (VInt 1)"
      using cf by (simp add: py_in_py_join int_of_bool_def)
    with mem show "py_lower v \<in> set (header_values ''server'' entries)
        \<and> (py_in ''cloudflare'' (py_lower v)
              \<longrightarrow> map_of f ''has_cloudflare'' = Some (VInt 1))"
      by (rule conjI)
  qed
  from it loop cf aws cos each
  show "\<exists>entries content_types.
           py_iter (dict_get d ''har'' (JList [])) = Inr entries
         \<and> py_for entry_step entries ([], []) = Inr (header_values ''server'' entries, content_types)
         \<and> map_of f ''has_cloudflare''
             = Some (VInt (int_of_bool
                 (py_in ''cloudflare'' (py_join '' '' (header_values ''server'' entries)))))
         \<and> map_of f ''has_aws_cloudfront''
             = Some (VInt (int_of_bool
                 (py_in ''cloudfront'' (py_join '' '' (header_values ''server'' entries)))))
         \<and> map_of f ''has_tencent_cos''
             = Some (VInt (int_of_bool
                 (py_in ''tencent-cos'' (py_join '' '' (header_values ''server'' entries)))))
         \<and> (\<forall>e r hs kv k v.
               JDict e \<in> set entries \<and> dict_get e ''response'' (JDict []) = JDict r
             \<and> dict_get r ''headers'' (JList []) = JList hs \<and> JDict kv \<in> set hs
             \<and> dict_get kv ''key'' (JStr []) = JStr k \<and> py_lower k = ''server''
             \<and> dict_get kv ''value'' (JStr []) = JStr v
             \<longrightarrow> py_lower v \<in> set (header_values ''server'' entries)
               \<and> (py_in ''cloudflare'' (py_lower v)
                    \<longrightarrow> map_of f ''has_cloudflare'' = Some (VInt 1)))"
    by (intro exI [of _ entries] exI [of _ cts] conjI)
qed

theorem C8_server_header_witness:
  "feature ''has_cloudflare''
     (extract_contentinfo_features
        (JDict [(''har'', JList [JDict [], JDict [(''response'', JDict [(''headers'',
           JList [JDict [(''key'', JStr ''Content-Type''), (''value'', JStr ''text/html'')],
                  JDict [(''key'', JStr ''SERVER''), (''value'', JStr ''CloudFlare-nginx'')]])])]])]))
     = Some (VInt 1)
   \<and> feature ''has_aws_cloudfront''
     (extract_contentinfo_features
        (JDict [(''har'', JList [JDict [], JDict [(''response'', JDict [(''headers'',
           JList [JDict [(''key'', JStr ''Content-Type''), (''value'', JStr ''text/html'')],
                  JDict [(''key'', JStr ''SERVER''), (''value'', JStr ''CloudFlare-nginx'')]])])]])]))
     = Some (VInt 0)"
proof -
  let ?kv = "[(''key'', JStr ''SERVER''), (''value'', JStr ''CloudFlare-nginx'')]"
  let ?hs = "[JDict [(''key'', JStr ''Content-Type''), (''value'', JStr ''text/html'')], JDict ?kv]"
  let ?r = "[(''headers'', JList ?hs)]"
  let ?e = "[(''response'', JDict ?r)]"
  let ?entries = "[JDict [], JDict ?e]"
  let ?d = "[(''har'', JList ?entries)]"
  have "returns (extract_contentinfo_features (JDict ?d))"
    by code_simp
  then obtain f where f: "extract_contentinfo_features (JDict ?d) = Inr f"
    unfolding returns_iff ..
  from C8_server_header [of ?d f] f obtain entries where
    it: "py_iter (dict_get ?d ''har'' (JList [])) = Inr entries"
    and aws: "map_of f ''has_aws_cloudfront''
             = Some (VInt (int_of_bool
                 (py_in ''cloudfront'' (py_join '' '' (header_values ''server'' entries)))))"
    and each: "\<forall>e r hs kv k v.
               JDict e \<in> set entries \<and> dict_get e ''response'' (JDict []) = JDict r
             \<and> dict_get r ''headers'' (JList []) = JList hs \<and> JDict kv \<in> set hs
             \<and> dict_get kv ''key'' (JStr []) = JStr k \<and> py_lower k = ''server''
             \<and> dict_get kv ''value'' (JStr []) = JStr v
             \<longrightarrow> py_lower v \<in> set (header_values ''server'' entries)
               \<and> (py_in ''cloudflare'' (py_lower v)
                    \<longrightarrow> map_of f ''has_cloudflare'' = Some (VInt 1))"
    by blast
  from it have entries: "entries = ?entries"
    by (simp add: dict_get_def)
  have low: "py_lower ''SERVER'' = ''server''" "py_in ''cloudflare'' (py_lower ''CloudFlare-nginx'')"
    by code_simp+
  have fields: "dict_get ?e ''response'' (JDict []) = JDict ?r"
    "dict_get ?r ''headers'' (JList []) = JList ?hs"
    "dict_get ?kv ''key'' (JStr []) = JStr ''SERVER''"
    "dict_get ?kv ''value'' (JStr []) = JStr ''CloudFlare-nginx''"
    by (simp_all add: dict_get_def)
  have inside: "JDict ?e \<in> set entries" "JDict ?kv \<in> set ?hs"
    by (simp_all add: entries)
  from each [rule_format, of ?e ?r ?hs ?kv "''SERVER''" "''CloudFlare-nginx''"]
    fields inside low
  have cf: "map_of f ''has_cloudflare'' = Some (VInt 1)"
    by blast
  have "\<not> py_in ''cloudfront'' (py_join '' '' (header_values ''server'' ?entries))"
    by code_simp
  with aws have "map_of f ''has_aws_cloudfront'' = Some (VInt 0)"
    by (simp add: entries int_of_bool_def)
  with cf show ?thesis
    unfolding f by (simp add: feature_def)
qed

subsection \<open>Where the extractors return\<close>

text \<open>
  Claim C1 says that the extractors return on every input. A \<open>tech_info\<close> of \<^verbatim>\<open>null\<close> makes
  \<open>extract_general_features\<close> raise \<^verbatim>\<open>TypeError\<close> at \<^verbatim>\<open>len(tech_info)\<close>, and an \<open>html\<close> of
  \<^verbatim>\<open>null\<close> makes \<open>extract_contentinfo_features\<close> raise \<^verbatim>\<open>TypeError\<close> at \<^verbatim>\<open>len\<close>.
\<close>

theorem C1_counterexample:
  "extract_general_features urlparse (JDict [(''tech_info'', JNull)]) = Inl TypeError
   \<and> extract_contentinfo_features (JDict [(''html'', JNull)]) = Inl TypeError"
  by code_simp

lemma is_number_py_int: "is_number v \<Longrightarrow> \<exists>n. py_int v = Inr n"
  by (cases v) (simp_all add: is_number_def)

lemma is_list_py_len: "is_list v \<Longrightarrow> \<exists>n. py_len v = Inr n"
  by (cases v) (simp_all add: is_list_def)

lemma is_str_iff: "is_str v \<longleftrightarrow> (\<exists>s. v = JStr s)"
  by (cases v) (simp_all add: is_str_def)

lemma py_or_str: "is_str v \<or> v = JNull \<Longrightarrow> \<exists>s. py_or v (JStr t) = JStr s"
  by (auto simp: is_str_iff py_or_def)

text \<open>A loop returns when its body returns on every element, from every state that an
  invariant of the loop allows.\<close>

lemma py_for_returns:
  assumes "\<And>x s. x \<in> set xs \<Longrightarrow> P s \<Longrightarrow> \<exists>s'. body x s = Inr s' \<and> P s'"
    and "P s"
  shows "\<exists>s'. py_for body xs s = Inr s' \<and> P s'"
  using assms
proof (induction xs arbitrary: s)
  case Nil
  then show ?case
    by simp
next
  case (Cons x xs)
  from Cons.prems obtain m where m: "body x s = Inr m" "P m"
    by (meson list.set_intros(1))
  from Cons.prems(1) have "\<exists>s'. py_for body xs m = Inr s' \<and> P s'"
    by (intro Cons.IH m(2)) simp
  with m(1) show ?case
    by simp
qed

lemma py_for_returns_always:
  assumes "\<And>x s. x \<in> set xs \<Longrightarrow> \<exists>s'. body x s = Inr s'"
  shows "\<exists>s'. py_for body xs s = Inr s'"
  using py_for_returns [of xs "\<lambda>s. True" body s] assms by simp

lemma header_step_returns: "header_ok h \<Longrightarrow> \<exists>acc'. header_step h acc = Inr acc'"
  by (cases h)
    (auto simp: header_ok_def header_step_def Let_def py_get_def py_dict_def
      py_lower_method_def py_str_receiver_def is_str_iff)

lemma entry_step_returns:
  assumes "entry_ok entry"
  shows "\<exists>acc'. entry_step entry acc = Inr acc'"
proof -
  from assms obtain e r hs where entry: "entry = JDict e"
    and r: "dict_get e ''response'' (JDict []) = JDict r"
    and hs: "dict_get r ''headers'' (JList []) = JList hs"
    and ok: "list_all header_ok hs"
    by (auto simp: entry_ok_def split: json.splits)
  have "\<exists>acc'. py_for header_step hs acc = Inr acc'"
    using ok by (intro py_for_returns_always header_step_returns) (simp add: list_all_iff)
  with entry r hs show ?thesis
    by (simp add: entry_step_def py_get_def py_dict_def)
qed

lemma md5_step_returns:
  assumes "response_ok r" and "\<forall>x \<in> set acc. hashable x"
  shows "\<exists>acc'. md5_step r acc = Inr acc' \<and> (\<forall>x \<in> set acc'. hashable x)"
proof -
  from assms(1) obtain rd where r: "r = JDict rd" and h: "hashable (dict_get rd ''md5'' JNull)"
    by (auto simp: response_ok_def split: json.splits)
  with assms(2) show ?thesis
    by (simp add: md5_step_def py_get_def py_dict_def)
qed

lemma file_type_len_step_returns: "response_ok r \<Longrightarrow> \<exists>acc'. file_type_len_step r acc = Inr acc'"
  by (cases r)
    (auto simp: response_ok_def file_type_len_step_def py_get_def py_dict_def is_str_iff)

lemma file_type_has_step_returns:
  "response_ok r \<Longrightarrow> \<exists>acc'. file_type_has_step sub r acc = Inr acc'"
  by (cases r)
    (auto simp: response_ok_def file_type_has_step_def py_get_def py_dict_def
      py_lower_method_def py_str_receiver_def is_str_iff)

lemma general_returns:
  assumes "general_well_typed up data"
  shows "\<exists>f. extract_general_features up data = Inr f"
proof -
  from assms obtain d where data: "data = JDict d"
    by (auto simp: general_well_typed_def split: json.splits)
  with assms have url: "case dict_get d ''url'' (JStr []) of
        JStr url \<Rightarrow> returns (up url) | JNull \<Rightarrow> returns (up []) | _ \<Rightarrow> False"
    and sub: "is_str (dict_get d ''subdomain'' (JStr [])) \<or> dict_get d ''subdomain'' (JStr []) = JNull"
    and hs: "is_number (dict_get d ''has_subdomain'' (JBool False))"
    and cs: "is_number (dict_get d ''content_status'' (JInt 0))"
    and ti: "is_list (dict_get d ''tech_info'' (JList []))"
    by (simp_all add: general_well_typed_def)
  define field where "field = dict_get d ''url'' (JStr [])"
  from url have "\<exists>u parsed. py_or field (JStr []) = JStr u \<and> up u = Inr parsed"
    unfolding field_def [symmetric] by (cases field) (auto simp: py_or_def returns_iff)
  then obtain u parsed where u: "py_or (dict_get d ''url'' (JStr [])) (JStr []) = JStr u"
    and parsed: "up u = Inr parsed"
    unfolding field_def by blast
  from sub obtain s where
    s: "py_or (dict_get d ''subdomain'' (JStr [])) (JStr (str_or (pr_netloc parsed) [])) = JStr s"
    using py_or_str by blast
  from hs obtain h where h: "py_int (dict_get d ''has_subdomain'' (JBool False)) = Inr h"
    using is_number_py_int by blast
  from cs obtain c where c: "py_int (dict_get d ''content_status'' (JInt 0)) = Inr c"
    using is_number_py_int by blast
  from ti obtain n where n: "py_len (dict_get d ''tech_info'' (JList [])) = Inr n"
    using is_list_py_len by blast
  show ?thesis
    unfolding general_chain data
    by (simp add: py_dict_def py_str_receiver_def py_re_search_def u parsed s h c n)
qed

lemma dict_get_present:
  "dict_get d k dflt \<noteq> dflt \<Longrightarrow> dict_get d k dflt' = dict_get d k dflt"
  by (auto simp: dict_get_def split: option.splits)

lemma content_returns:
  assumes "content_well_typed content_info"
  shows "\<exists>f. extract_contentinfo_features content_info = Inr f"
proof -
  from assms obtain d where ci: "content_info = JDict d"
    by (auto simp: content_well_typed_def split: json.splits)
  with assms obtain es rs where
    sc: "is_number (dict_get d ''status_code'' (JInt 0))"
    and title: "is_str (dict_get d ''title'' JNull) \<or> dict_get d ''title'' JNull = JNull"
    and html: "is_str (dict_get d ''html'' (JStr []))"
    and dest: "is_str (dict_get d ''destination'' (JStr []))"
    and har: "dict_get d ''har'' (JList []) = JList es" "list_all entry_ok es"
    and resp: "dict_get d ''responses'' (JList []) = JList rs" "list_all response_ok rs"
    by (auto simp: content_well_typed_def split: json.splits)
  from sc obtain c where c: "py_int (dict_get d ''status_code'' (JInt 0)) = Inr c"
    using is_number_py_int by blast
  have "\<exists>n. (if py_bool (dict_get d ''title'' JNull)
              then py_len (dict_get d ''title'' (JStr [])) else Inr 0) = Inr n"
  proof (cases "py_bool (dict_get d ''title'' JNull)")
    case True
    then have "dict_get d ''title'' JNull \<noteq> JNull"
      by auto
    then have "dict_get d ''title'' (JStr []) = dict_get d ''title'' JNull"
      by (rule dict_get_present)
    with title True show ?thesis
      by (auto simp: is_str_iff)
  next
    case False
    then show ?thesis
      by simp
  qed
  then obtain t where t: "(if py_bool (dict_get d ''title'' JNull)
              then py_len (dict_get d ''title'' (JStr [])) else Inr 0) = Inr t" ..
  from html obtain h where h: "dict_get d ''html'' (JStr []) = JStr h"
    by (auto simp: is_str_iff)
  from dest obtain w where w: "dict_get d ''destination'' (JStr []) = JStr w"
    by (auto simp: is_str_iff)
  have "\<exists>acc'. py_for entry_step es ([], []) = Inr acc'"
    using har(2) by (intro py_for_returns_always entry_step_returns) (simp add: list_all_iff)
  then obtain servers cts where loop: "py_for entry_step es ([], []) = Inr (servers, cts)"
    by (metis surj_pair)
  have "\<exists>acc'. py_for md5_step rs [] = Inr acc' \<and> (\<forall>x \<in> set acc'. hashable x)"
    using resp(2)
    by (intro py_for_returns [where P = "\<lambda>acc. \<forall>x \<in> set acc. hashable x"] md5_step_returns)
      (simp_all add: list_all_iff)
  then obtain md5s where md5s: "py_for md5_step rs [] = Inr md5s" "\<forall>x \<in> set md5s. hashable x"
    by blast
  have "\<exists>acc'. py_for file_type_len_step rs 0 = Inr acc'"
    using resp(2)
    by (intro py_for_returns_always file_type_len_step_returns) (simp add: list_all_iff)
  then obtain tot where tot: "py_for file_type_len_step rs 0 = Inr tot"
    by blast
  have "\<exists>acc'. py_for (file_type_has_step ''long lines'') rs 0 = Inr acc'"
    using resp(2)
    by (intro py_for_returns_always file_type_has_step_returns) (simp add: list_all_iff)
  then obtain nll where nll: "py_for (file_type_has_step ''long lines'') rs 0 = Inr nll"
    by blast
  have "\<exists>acc'. py_for (file_type_has_step ''ascii'') rs 0 = Inr acc'"
    using resp(2)
    by (intro py_for_returns_always file_type_has_step_returns) (simp add: list_all_iff)
  then obtain nascii where nascii: "py_for (file_type_has_step ''ascii'') rs 0 = Inr nascii"
    by blast
  show ?thesis
    unfolding content_chain ci
    by (simp add: py_dict_def py_str_receiver_def py_lower_method_def py_set_size_def
        c t h w har(1) resp(1) loop md5s tot nll nascii)
qed

text \<open>
  Claim C1 as amended. \<open>extract_general_features\<close> returns, with exactly its keys, on
  every dictionary whose fields have the types of the data model where they are present
  (\<open>url\<close> and \<open>subdomain\<close> strings or \<^verbatim>\<open>null\<close>, \<open>has_subdomain\<close> and \<open>content_status\<close> integers
  or booleans, \<open>tech_info\<close> a list) and whose URL the parser accepts; and
  \<open>extract_contentinfo_features\<close> returns, with exactly its keys, on every dictionary
  whose fields have the types of the data model where they are present.
\<close>

theorem C1_returns_on_well_typed:
  "(general_well_typed up data
      \<longrightarrow> (\<exists>f. extract_general_features up data = Inr f \<and> map fst f = general_keys))
   \<and> (content_well_typed content_info
      \<longrightarrow> (\<exists>f. extract_contentinfo_features content_info = Inr f \<and> map fst f = content_keys))"
  using general_returns general_keys_of_result content_returns content_keys_of_result
  by blast

theorem C1_returns_on_well_typed_witness:
  "(\<exists>f. extract_general_features urlparse
          (JDict [(''url'', JStr ''https://x.y/a.php?q=1''), (''subdomain'', JNull),
                  (''has_subdomain'', JBool True), (''dns_status'', JList []),
                  (''content_status'', JInt 301), (''tech_info'', JList [JStr ''nginx''])]) = Inr f
        \<and> map fst f = general_keys)
   \<and> (\<exists>f. extract_contentinfo_features
          (JDict [(''status_code'', JInt 200), (''title'', JNull), (''html'', JStr ''<form>''),
                  (''har'', JList [JDict [(''response'', JDict [(''headers'',
                      JList [JDict [(''key'', JStr ''Server''), (''value'', JStr ''gws'')]])])]]),
                  (''responses'', JList [JDict [(''md5'', JStr ''0f'')],
                      JDict [(''file_type'', JStr ''ASCII text'')]])]) = Inr f
        \<and> map fst f = content_keys)"
proof -
  have "general_well_typed urlparse
          (JDict [(''url'', JStr ''https://x.y/a.php?q=1''), (''subdomain'', JNull),
                  (''has_subdomain'', JBool True), (''dns_status'', JList []),
                  (''content_status'', JInt 301), (''tech_info'', JList [JStr ''nginx''])])"
    by code_simp
  moreover have "content_well_typed
          (JDict [(''status_code'', JInt 200), (''title'', JNull), (''html'', JStr ''<form>''),
                  (''har'', JList [JDict [(''response'', JDict [(''headers'',
                      JList [JDict [(''key'', JStr ''Server''), (''value'', JStr ''gws'')]])])]]),
                  (''responses'', JList [JDict [(''md5'', JStr ''0f'')],
                      JDict [(''file_type'', JStr ''ASCII text'')]])])"
    by code_simp
  ultimately show ?thesis
    using C1_returns_on_well_typed by blast
qed

end
